theory Spec2Isabelle
  imports Main "HOL-Library.AList" "HOL-Library.Multiset"
    "HOL-Library.Char_ord" "HOL-Library.List_Lexorder"
begin

section \<open>Data model\<close>

text \<open>
  The ClusterExternalSecret controller
  (\<^verbatim>\<open>pkg/controllers/clusterexternalsecret/clusterexternalsecret_controller.go\<close>)
  projects one ExternalSecret template onto every namespace matched by a label selector.
  Go's \<^verbatim>\<open>error\<close> values are modelled by a datatype; a \<^verbatim>\<open>nil\<close> error is \<open>None\<close>.
  \<open>NotFound\<close> is the error recognised by \<^verbatim>\<open>apierrors.IsNotFound\<close>, \<open>AlreadyOwned\<close> and
  \<open>NoKind\<close> are the two errors of \<^verbatim>\<open>controllerutil.SetControllerReference\<close>, and
  \<open>Failure\<close> stands for every other error of the API client, with its message.
\<close>

datatype error = NotFound | AlreadyOwned | NoKind | Failure string

definition IsNotFound :: "error option \<Rightarrow> bool" where
  "IsNotFound err = (err = Some NotFound)"

text \<open>
  A Go \<^verbatim>\<open>map[string]string\<close> is either \<^verbatim>\<open>nil\<close> (\<open>None\<close>) or a map; the two are
  different values for \<^verbatim>\<open>reflect.DeepEqual\<close> even when the map is empty.
\<close>

type_synonym stringMap = "(string \<rightharpoonup> string) option"

type_synonym duration = int

type_synonym externalSecretSpec = string

type_synonym labelSelector = string

record ownerReference =
  or_Group :: string
  or_Version :: string
  or_Kind :: string
  or_Name :: string
  or_UID :: string
  or_Controller :: "bool option"
  or_BlockOwnerDeletion :: "bool option"

record objectMeta =
  Name :: string
  Namespace :: string
  UID :: string
  Labels :: stringMap
  Annotations :: stringMap
  OwnerReferences :: "ownerReference list"

record namespace =
  ns_ObjectMeta :: objectMeta

record externalSecret =
  es_ObjectMeta :: objectMeta
  es_Spec :: externalSecretSpec

record externalSecretMetadata =
  md_Annotations :: stringMap
  md_Labels :: stringMap

record namespaceFailure =
  nf_Namespace :: string
  nf_Reason :: string

text \<open>
  Modelled from the spec: the type of the status condition and the two helpers
  \<^verbatim>\<open>NewClusterExternalSecretCondition\<close> and \<^verbatim>\<open>SetClusterExternalSecretCondition\<close> are
  declared in files of the package that are not part of the sources at hand. The spec
  (4.4) gives a single condition that is "succeeded" only when the failure map of the
  cycle is empty and that otherwise reports the failure count relative to the matched
  count; the condition is replaced, not appended, each cycle. The time stamp of the last
  transition is left out.
\<close>

record condition =
  cond_Succeeded :: bool
  cond_FailedCount :: nat
  cond_MatchedCount :: nat

record clusterExternalSecretSpec =
  ExternalSecretSpec :: externalSecretSpec
  ExternalSecretName :: string
  ExternalSecretMetadata :: externalSecretMetadata
  NamespaceSelector :: labelSelector
  RefreshInterval :: "duration option"

record clusterExternalSecretStatus =
  FailedNamespaces :: "namespaceFailure list"
  ProvisionedNamespaces :: "string list"
  Conditions :: "condition option"

record clusterExternalSecret =
  ces_ObjectMeta :: objectMeta
  ces_Spec :: clusterExternalSecretSpec
  ces_Status :: clusterExternalSecretStatus

text \<open>
  The reconciler: its default requeue interval and its scheme, of which only the
  group, version and kind registered for ClusterExternalSecret matter (\<open>None\<close> when the
  type is not registered).
\<close>

record reconciler =
  RequeueInterval :: duration
  Scheme :: "(string \<times> string \<times> string) option"

record result =
  RequeueAfter :: duration

definition errGetExistingES :: string where
  "errGetExistingES = ''could not get existing ExternalSecret''"

definition errCreatingOrUpdating :: string where
  "errCreatingOrUpdating = ''could not create or update ExternalSecret''"

definition errSetCtrlReference :: string where
  "errSetCtrlReference = ''could not set the controller owner reference''"

definition errSecretAlreadyExists :: string where
  "errSecretAlreadyExists = ''external secret already exists in namespace''"

definition errFailedToDelete :: string where
  "errFailedToDelete = ''external secret in non matching namespace could not be deleted''"

section \<open>Pure helpers of the controller\<close>

text \<open>
  \<^verbatim>\<open>getRemovedNamespaces\<close>: the names of the matched namespaces are collected in a set,
  then the previously provisioned names that are not in it are appended in order.
\<close>

definition getRemovedNamespaces :: "namespace list \<Rightarrow> string list \<Rightarrow> string list" where
  "getRemovedNamespaces nsList provisionedNs =
     (let nsSet = fold (\<lambda>n s. insert (Name (ns_ObjectMeta n)) s) nsList {}
      in fold (\<lambda>ns removedNamespaces.
                 if ns \<in> nsSet then removedNamespaces else removedNamespaces @ [ns])
              provisionedNs [])"

text \<open>
  \<^verbatim>\<open>checkForError\<close>: the reason for which a namespace is skipped, or the empty string.
\<close>

definition checkForError :: "error option \<Rightarrow> objectMeta \<Rightarrow> string" where
  "checkForError getError existingES =
     (if getError \<noteq> None \<and> \<not> IsNotFound getError then errGetExistingES
      else if \<not> IsNotFound getError \<and> length (OwnerReferences existingES) = 0
        then errSecretAlreadyExists
      else [])"

text \<open>
  \<^verbatim>\<open>toNamespaceFailures\<close>: the failure map is an association list with distinct keys
  (filled with \<open>AList.update\<close>); the order of its entries stands for the order in which
  Go's \<^verbatim>\<open>range\<close> happens to visit the map. \<^verbatim>\<open>sort.Slice\<close> orders by namespace name.
\<close>

definition toNamespaceFailures :: "(string \<times> string) list \<Rightarrow> namespaceFailure list" where
  "toNamespaceFailures failedNamespaces =
     sort_key nf_Namespace
       (map (\<lambda>(namespace, message). \<lparr>nf_Namespace = namespace, nf_Reason = message\<rparr>)
            failedNamespaces)"

subsection \<open>The namespace event predicate\<close>

text \<open>
  An event carries \<^verbatim>\<open>client.Object\<close> interfaces, which may be \<^verbatim>\<open>nil\<close> (\<open>None\<close>).
  \<^verbatim>\<open>reflect.DeepEqual\<close> on two \<^verbatim>\<open>map[string]string\<close> values holds when both are nil
  or both are non-nil with the same entries, which is equality of \<open>stringMap\<close>.
\<close>

datatype createEvent = CreateEvent "namespace option"

datatype updateEvent = UpdateEvent "namespace option" "namespace option"

datatype deleteEvent = DeleteEvent "namespace option"

record funcs =
  CreateFunc :: "createEvent \<Rightarrow> bool"
  UpdateFunc :: "updateEvent \<Rightarrow> bool"
  DeleteFunc :: "deleteEvent \<Rightarrow> bool"

definition GetLabels :: "namespace \<Rightarrow> stringMap" where
  "GetLabels n = Labels (ns_ObjectMeta n)"

definition DeepEqual :: "stringMap \<Rightarrow> stringMap \<Rightarrow> bool" where
  "DeepEqual a b =
     (case (a, b) of
        (None, None) \<Rightarrow> True
      | (Some m, Some n) \<Rightarrow> m = n
      | _ \<Rightarrow> False)"

definition namespacePredicate :: funcs where
  "namespacePredicate =
     \<lparr>CreateFunc = (\<lambda>e. True),
      UpdateFunc = (\<lambda>e. case e of
         UpdateEvent None _ \<Rightarrow> False
       | UpdateEvent _ None \<Rightarrow> False
       | UpdateEvent (Some ObjectOld) (Some ObjectNew) \<Rightarrow>
           \<not> DeepEqual (GetLabels ObjectOld) (GetLabels ObjectNew)),
      DeleteFunc = (\<lambda>deleteEvent. True)\<rparr>"

text \<open>The label set of a namespace: the key/value pairs of its label map.\<close>

definition labelSet :: "namespace \<Rightarrow> (string \<times> string) set" where
  "labelSet n = (case GetLabels n of None \<Rightarrow> {} | Some m \<Rightarrow> Map.graph m)"

section \<open>The API server as seen through the client\<close>

text \<open>
  The cluster holds the ClusterExternalSecret objects by name and the ExternalSecret
  objects by namespace and name, and keeps the sequence of requests the controller has
  issued (oldest first), so that "no request of this kind was made" can be stated.
\<close>

datatype request =
    GetClusterExternalSecret string
  | ListNamespaces labelSelector
  | GetMetadata string string
  | GetExternalSecret string string
  | CreateExternalSecret externalSecret
  | UpdateExternalSecret externalSecret
  | DeleteExternalSecret string string
  | PatchStatus clusterExternalSecret clusterExternalSecret

record cluster =
  parents :: "string \<rightharpoonup> clusterExternalSecret"
  secrets :: "string \<times> string \<rightharpoonup> externalSecret"
  requests :: "request list"

text \<open>
  What the controller does not decide: the outcome of converting a label selector
  (\<^verbatim>\<open>metav1.LabelSelectorAsSelector\<close>), the namespaces the server lists for a selector, and
  for every kind of request and every object the error, if any, with which the request
  fails for a reason other than the object being absent.
\<close>

record env =
  LabelSelectorAsSelector :: "labelSelector \<Rightarrow> error + labelSelector"
  ListResult :: "labelSelector \<Rightarrow> error + namespace list"
  getParentFault :: "string \<Rightarrow> string option"
  getMetadataFault :: "string \<times> string \<Rightarrow> string option"
  getFault :: "string \<times> string \<Rightarrow> string option"
  createFault :: "string \<times> string \<Rightarrow> string option"
  updateFault :: "string \<times> string \<Rightarrow> string option"
  deleteFault :: "string \<times> string \<Rightarrow> string option"
  patchFault :: "string \<Rightarrow> string option"

definition record_request :: "request \<Rightarrow> cluster \<Rightarrow> cluster" where
  "record_request q c = c\<lparr>requests := requests c @ [q]\<rparr>"

text \<open>
  An object read from the server carries the name and the namespace under which it is
  stored.
\<close>

definition named :: "string \<Rightarrow> string \<Rightarrow> externalSecret \<Rightarrow> externalSecret" where
  "named namespace name es =
     es\<lparr>es_ObjectMeta := (es_ObjectMeta es)\<lparr>Name := name, Namespace := namespace\<rparr>\<rparr>"

definition stored :: "cluster \<Rightarrow> string \<Rightarrow> string \<Rightarrow> externalSecret option" where
  "stored c namespace name = map_option (named namespace name) (secrets c (namespace, name))"

definition storedParent :: "cluster \<Rightarrow> string \<Rightarrow> clusterExternalSecret option" where
  "storedParent c name =
     map_option (\<lambda>p. p\<lparr>ces_ObjectMeta := (ces_ObjectMeta p)\<lparr>Name := name\<rparr>\<rparr>) (parents c name)"

definition emptyMeta :: objectMeta where
  "emptyMeta = \<lparr>Name = [], Namespace = [], UID = [], Labels = None, Annotations = None,
                OwnerReferences = []\<rparr>"

text \<open>
  \<^verbatim>\<open>getExternalSecret\<close>: a metadata-only get; the metadata object is returned also when
  the get fails, then empty.
\<close>

definition getExternalSecret ::
  "env \<Rightarrow> cluster \<Rightarrow> string \<Rightarrow> string \<Rightarrow> cluster \<times> objectMeta \<times> error option" where
  "getExternalSecret e c namespace name =
     (let c' = record_request (GetMetadata namespace name) c
      in case getMetadataFault e (namespace, name) of
           Some msg \<Rightarrow> (c', emptyMeta, Some (Failure msg))
         | None \<Rightarrow>
             (case stored c namespace name of
                None \<Rightarrow> (c', emptyMeta, Some NotFound)
              | Some es \<Rightarrow> (c', es_ObjectMeta es, None)))"

text \<open>\<^verbatim>\<open>r.Delete\<close> of the client, on the object named by the metadata.\<close>

definition Delete :: "env \<Rightarrow> cluster \<Rightarrow> objectMeta \<Rightarrow> cluster \<times> error option" where
  "Delete e c obj =
     (let key = (Namespace obj, Name obj);
          c' = record_request (DeleteExternalSecret (Namespace obj) (Name obj)) c
      in case deleteFault e key of
           Some msg \<Rightarrow> (c', Some (Failure msg))
         | None \<Rightarrow>
             (case secrets c key of
                None \<Rightarrow> (c', Some NotFound)
              | Some _ \<Rightarrow> (c'\<lparr>secrets := (secrets c)(key := None)\<rparr>, None)))"

subsection \<open>controller-runtime: owner references and create-or-update\<close>

definition referSameObject :: "ownerReference \<Rightarrow> ownerReference \<Rightarrow> bool" where
  "referSameObject a b =
     (or_Group a = or_Group b \<and> or_Kind a = or_Kind b \<and> or_Name a = or_Name b)"

definition GetControllerOf :: "objectMeta \<Rightarrow> ownerReference option" where
  "GetControllerOf controlled =
     find (\<lambda>ref. or_Controller ref = Some True) (OwnerReferences controlled)"

fun upsertOwnerRef :: "ownerReference \<Rightarrow> ownerReference list \<Rightarrow> ownerReference list" where
  "upsertOwnerRef ref [] = [ref]"
| "upsertOwnerRef ref (r # owners) =
     (if referSameObject r ref then ref # owners else r # upsertOwnerRef ref owners)"

definition validateOwner :: "objectMeta \<Rightarrow> objectMeta \<Rightarrow> error option" where
  "validateOwner owner object =
     (let ownerNs = Namespace owner
      in if ownerNs \<noteq> [] then
           (let objNs = Namespace object
            in if objNs = [] then
                 Some (Failure ''cluster-scoped resource must not have a namespace-scoped owner'')
               else if ownerNs \<noteq> objNs then
                 Some (Failure ''cross-namespace owner references are disallowed'')
               else None)
         else None)"

text \<open>
  \<^verbatim>\<open>controllerutil.SetControllerReference\<close>: fails when the owner is not valid for the
  object, when the scheme does not know the owner's kind, or when the object already has
  a controller that is another object; otherwise the owner's reference is put into the
  object's owner references.
\<close>

definition SetControllerReference ::
  "clusterExternalSecret \<Rightarrow> objectMeta \<Rightarrow> (string \<times> string \<times> string) option
     \<Rightarrow> error + objectMeta" where
  "SetControllerReference owner controlled scheme =
     (case validateOwner (ces_ObjectMeta owner) controlled of
        Some err \<Rightarrow> Inl err
      | None \<Rightarrow>
          (case scheme of
             None \<Rightarrow> Inl NoKind
           | Some (apiGroup, apiVersion, apiKind) \<Rightarrow>
               (let ref = \<lparr>or_Group = apiGroup, or_Version = apiVersion, or_Kind = apiKind,
                           or_Name = Name (ces_ObjectMeta owner),
                           or_UID = UID (ces_ObjectMeta owner),
                           or_Controller = Some True,
                           or_BlockOwnerDeletion = Some True\<rparr>
                in case GetControllerOf controlled of
                     Some existing \<Rightarrow>
                       if \<not> referSameObject existing ref then Inl AlreadyOwned
                       else Inr (controlled\<lparr>OwnerReferences :=
                                   upsertOwnerRef ref (OwnerReferences controlled)\<rparr>)
                   | None \<Rightarrow>
                       Inr (controlled\<lparr>OwnerReferences :=
                              upsertOwnerRef ref (OwnerReferences controlled)\<rparr>))))"

text \<open>
  \<^verbatim>\<open>equality.Semantic.DeepEqual\<close> does not tell a nil map from an empty one.
\<close>

definition entries :: "stringMap \<Rightarrow> (string \<rightharpoonup> string)" where
  "entries m = (case m of None \<Rightarrow> Map.empty | Some f \<Rightarrow> f)"

definition Semantic_DeepEqual :: "externalSecret \<Rightarrow> externalSecret \<Rightarrow> bool" where
  "Semantic_DeepEqual a b =
     (let ma = es_ObjectMeta a; mb = es_ObjectMeta b
      in Name ma = Name mb \<and> Namespace ma = Namespace mb \<and> UID ma = UID mb
         \<and> entries (Labels ma) = entries (Labels mb)
         \<and> entries (Annotations ma) = entries (Annotations mb)
         \<and> OwnerReferences ma = OwnerReferences mb
         \<and> es_Spec a = es_Spec b)"

definition ObjectKeyFromObject :: "externalSecret \<Rightarrow> string \<times> string" where
  "ObjectKeyFromObject obj = (Namespace (es_ObjectMeta obj), Name (es_ObjectMeta obj))"

definition mutate ::
  "(externalSecret \<Rightarrow> error + externalSecret) \<Rightarrow> string \<times> string \<Rightarrow> externalSecret
     \<Rightarrow> error + externalSecret" where
  "mutate f key obj =
     (case f obj of
        Inl err \<Rightarrow> Inl err
      | Inr obj' \<Rightarrow>
          if key \<noteq> ObjectKeyFromObject obj'
          then Inl (Failure ''MutateFn cannot mutate object name and/or object namespace'')
          else Inr obj')"

text \<open>
  \<^verbatim>\<open>controllerutil.CreateOrUpdate\<close>: get the object by its key; when it is absent, mutate
  the given object and create it; when it is present, the given object is overwritten
  by what the server holds, mutated, and sent as an update unless the mutation changed
  nothing.
\<close>

definition CreateOrUpdate ::
  "env \<Rightarrow> cluster \<Rightarrow> externalSecret \<Rightarrow> (externalSecret \<Rightarrow> error + externalSecret)
     \<Rightarrow> cluster \<times> error option" where
  "CreateOrUpdate e c obj f =
     (let key = ObjectKeyFromObject obj;
          c1 = record_request (GetExternalSecret (fst key) (snd key)) c
      in case getFault e key of
           Some msg \<Rightarrow> (c1, Some (Failure msg))
         | None \<Rightarrow>
             (case stored c (fst key) (snd key) of
                None \<Rightarrow>
                  (case mutate f key obj of
                     Inl err \<Rightarrow> (c1, Some err)
                   | Inr obj' \<Rightarrow>
                       (let c2 = record_request (CreateExternalSecret obj') c1
                        in case createFault e key of
                             Some msg \<Rightarrow> (c2, Some (Failure msg))
                           | None \<Rightarrow> (c2\<lparr>secrets := (secrets c)(key \<mapsto> obj')\<rparr>, None)))
              | Some existing \<Rightarrow>
                  (case mutate f key existing of
                     Inl err \<Rightarrow> (c1, Some err)
                   | Inr obj' \<Rightarrow>
                       if Semantic_DeepEqual existing obj' then (c1, None)
                       else
                         (let c2 = record_request (UpdateExternalSecret obj') c1
                          in case updateFault e key of
                               Some msg \<Rightarrow> (c2, Some (Failure msg))
                             | None \<Rightarrow>
                                 (c2\<lparr>secrets := (secrets c)(key \<mapsto> obj')\<rparr>, None)))))"

section \<open>The reconciler\<close>

text \<open>
  \<^verbatim>\<open>resolveExternalSecret\<close>: the first \<^verbatim>\<open>SetControllerReference\<close> is on the metadata that
  was fetched and only serves as a check; the second is on the object that is then
  created or updated.
\<close>

definition resolveExternalSecret ::
  "reconciler \<Rightarrow> env \<Rightarrow> cluster \<Rightarrow> clusterExternalSecret \<Rightarrow> objectMeta \<Rightarrow> namespace
     \<Rightarrow> string \<Rightarrow> externalSecretMetadata \<Rightarrow> cluster \<times> string \<times> error option" where
  "resolveExternalSecret r e c clusterExternalSecret existingES namespace esName esMetadata =
     (case SetControllerReference clusterExternalSecret existingES (Scheme r) of
        Inl err \<Rightarrow> (c, errSetCtrlReference, Some err)
      | Inr _ \<Rightarrow>
          (let externalSecret =
                 \<lparr>es_ObjectMeta =
                    \<lparr>Name = esName, Namespace = Name (ns_ObjectMeta namespace), UID = [],
                     Labels = md_Labels esMetadata, Annotations = md_Annotations esMetadata,
                     OwnerReferences = []\<rparr>,
                  es_Spec = ExternalSecretSpec (ces_Spec clusterExternalSecret)\<rparr>
           in case SetControllerReference clusterExternalSecret
                     (es_ObjectMeta externalSecret) (Scheme r) of
                Inl err \<Rightarrow> (c, errSetCtrlReference, Some err)
              | Inr meta \<Rightarrow>
                  (let mutateFunc =
                         (\<lambda>obj. Inr (obj\<lparr>es_Spec :=
                                   ExternalSecretSpec (ces_Spec clusterExternalSecret)\<rparr>))
                   in case CreateOrUpdate e c (externalSecret\<lparr>es_ObjectMeta := meta\<rparr>)
                             mutateFunc of
                        (c', Some err) \<Rightarrow> (c', errCreatingOrUpdating, Some err)
                      | (c', None) \<Rightarrow> (c', [], None))))"

definition removeExternalSecret ::
  "env \<Rightarrow> cluster \<Rightarrow> string \<Rightarrow> string \<Rightarrow> cluster \<times> string \<times> error option" where
  "removeExternalSecret e c esName namespace =
     (case getExternalSecret e c namespace esName of
        (c1, existingES, err) \<Rightarrow>
          if err \<noteq> None \<and> IsNotFound err then (c1, [], None)
          else
            (let result = checkForError err existingES
             in if result \<noteq> [] then (c1, result, err)
                else
                  (case Delete e c1 existingES of
                     (c2, Some err') \<Rightarrow> (c2, errFailedToDelete, Some err')
                   | (c2, None) \<Rightarrow> (c2, [], None))))"

text \<open>
  \<^verbatim>\<open>removeOldNamespaces\<close>: the loop over the removed namespaces, with the cluster and
  the failure map as its state.
\<close>

fun removeLoop ::
  "env \<Rightarrow> string \<Rightarrow> string list \<Rightarrow> cluster \<times> (string \<times> string) list
     \<Rightarrow> cluster \<times> (string \<times> string) list" where
  "removeLoop e esName [] (c, failedNamespaces) = (c, failedNamespaces)"
| "removeLoop e esName (namespace # rest) (c, failedNamespaces) =
     (case removeExternalSecret e c esName namespace of
        (c', result, err) \<Rightarrow>
          removeLoop e esName rest
            (c', if result \<noteq> [] then AList.update namespace result failedNamespaces
                 else failedNamespaces))"

definition removeOldNamespaces ::
  "env \<Rightarrow> cluster \<Rightarrow> namespace list \<Rightarrow> string \<Rightarrow> string list
     \<Rightarrow> cluster \<times> (string \<times> string) list" where
  "removeOldNamespaces e c namespaceList esName provisionedNamespaces =
     removeLoop e esName (getRemovedNamespaces namespaceList provisionedNamespaces) (c, [])"

text \<open>
  \<^verbatim>\<open>deferPatch\<close>: a merge patch of the status against the snapshot \<open>p\<close>. The patch carries
  the status fields in which the object differs from the snapshot; the server puts them
  into the object it holds. A failure is logged only.
\<close>

definition mergeStatus ::
  "clusterExternalSecretStatus \<Rightarrow> clusterExternalSecretStatus \<Rightarrow> clusterExternalSecretStatus
     \<Rightarrow> clusterExternalSecretStatus" where
  "mergeStatus snapshot modified current =
     \<lparr>FailedNamespaces =
        (if FailedNamespaces modified = FailedNamespaces snapshot
         then FailedNamespaces current else FailedNamespaces modified),
      ProvisionedNamespaces =
        (if ProvisionedNamespaces modified = ProvisionedNamespaces snapshot
         then ProvisionedNamespaces current else ProvisionedNamespaces modified),
      Conditions =
        (if Conditions modified = Conditions snapshot
         then Conditions current else Conditions modified)\<rparr>"

definition deferPatch ::
  "env \<Rightarrow> cluster \<Rightarrow> clusterExternalSecret \<Rightarrow> clusterExternalSecret \<Rightarrow> cluster" where
  "deferPatch e c clusterExternalSecret p =
     (let name = Name (ces_ObjectMeta clusterExternalSecret);
          c' = record_request (PatchStatus p clusterExternalSecret) c
      in case patchFault e name of
           Some msg \<Rightarrow> c'
         | None \<Rightarrow>
             (case parents c name of
                None \<Rightarrow> c'
              | Some current \<Rightarrow>
                  c'\<lparr>parents := (parents c)(name \<mapsto>
                        current\<lparr>ces_Status :=
                          mergeStatus (ces_Status p) (ces_Status clusterExternalSecret)
                            (ces_Status current)\<rparr>)\<rparr>))"

text \<open>
  Modelled from the spec: \<^verbatim>\<open>NewClusterExternalSecretCondition\<close> and
  \<^verbatim>\<open>SetClusterExternalSecretCondition\<close> (see the condition type above).
\<close>

definition NewClusterExternalSecretCondition ::
  "(string \<times> string) list \<Rightarrow> namespace list \<Rightarrow> condition" where
  "NewClusterExternalSecretCondition failedNamespaces namespaceList =
     \<lparr>cond_Succeeded = (length failedNamespaces = 0),
      cond_FailedCount = length failedNamespaces,
      cond_MatchedCount = length namespaceList\<rparr>"

definition SetClusterExternalSecretCondition ::
  "clusterExternalSecret \<Rightarrow> condition \<Rightarrow> clusterExternalSecret" where
  "SetClusterExternalSecretCondition ces cond =
     ces\<lparr>ces_Status := (ces_Status ces)\<lparr>Conditions := Some cond\<rparr>\<rparr>"

text \<open>
  The body of the loop of \<^verbatim>\<open>Reconcile\<close> over the matched namespaces, and the loop. The
  state is the cluster, the failure map and the list of provisioned namespaces.
\<close>

definition reconcileNamespace ::
  "reconciler \<Rightarrow> env \<Rightarrow> clusterExternalSecret \<Rightarrow> string \<Rightarrow> namespace
     \<Rightarrow> cluster \<times> (string \<times> string) list \<times> string list
     \<Rightarrow> cluster \<times> (string \<times> string) list \<times> string list" where
  "reconcileNamespace r e clusterExternalSecret esName namespace st =
     (case st of (c, failedNamespaces, provisionedNamespaces) \<Rightarrow>
        (case getExternalSecret e c (Name (ns_ObjectMeta namespace)) esName of
           (c1, existingES, err) \<Rightarrow>
             (let result = checkForError err existingES
              in if result \<noteq> [] then
                   (c1, AList.update (Name (ns_ObjectMeta namespace)) result failedNamespaces,
                    provisionedNamespaces)
                 else
                   (case resolveExternalSecret r e c1 clusterExternalSecret existingES
                           namespace esName
                           (ExternalSecretMetadata (ces_Spec clusterExternalSecret)) of
                      (c2, result, Some err') \<Rightarrow>
                        (c2,
                         AList.update (Name (ns_ObjectMeta namespace)) result failedNamespaces,
                         provisionedNamespaces)
                    | (c2, result, None) \<Rightarrow>
                        (c2, failedNamespaces,
                         provisionedNamespaces @ [Name (ns_ObjectMeta namespace)])))))"

fun reconcileNamespaces ::
  "reconciler \<Rightarrow> env \<Rightarrow> clusterExternalSecret \<Rightarrow> string \<Rightarrow> namespace list
     \<Rightarrow> cluster \<times> (string \<times> string) list \<times> string list
     \<Rightarrow> cluster \<times> (string \<times> string) list \<times> string list" where
  "reconcileNamespaces r e ces esName [] st = st"
| "reconcileNamespaces r e ces esName (namespace # rest) st =
     reconcileNamespaces r e ces esName rest (reconcileNamespace r e ces esName namespace st)"

definition effectiveInterval :: "reconciler \<Rightarrow> clusterExternalSecret \<Rightarrow> duration" where
  "effectiveInterval r clusterExternalSecret =
     (case RefreshInterval (ces_Spec clusterExternalSecret) of
        None \<Rightarrow> RequeueInterval r
      | Some d \<Rightarrow> d)"

definition effectiveName :: "clusterExternalSecret \<Rightarrow> string" where
  "effectiveName clusterExternalSecret =
     (let esName = ExternalSecretName (ces_Spec clusterExternalSecret)
      in if esName = [] then Name (ces_ObjectMeta clusterExternalSecret) else esName)"

text \<open>
  \<^verbatim>\<open>Reconcile\<close> after the parent has been fetched and the patch has been deferred: the
  cluster, the parent object as the cycle leaves it, the result and the error.
\<close>

definition reconcileBody ::
  "reconciler \<Rightarrow> env \<Rightarrow> cluster \<Rightarrow> clusterExternalSecret
     \<Rightarrow> cluster \<times> clusterExternalSecret \<times> result \<times> error option" where
  "reconcileBody r e c clusterExternalSecret =
     (let refreshInt = effectiveInterval r clusterExternalSecret
      in case LabelSelectorAsSelector e (NamespaceSelector (ces_Spec clusterExternalSecret)) of
           Inl err \<Rightarrow> (c, clusterExternalSecret, \<lparr>RequeueAfter = refreshInt\<rparr>, Some err)
         | Inr labelSelector \<Rightarrow>
             (let c0 = record_request (ListNamespaces labelSelector) c
              in case ListResult e labelSelector of
                   Inl err \<Rightarrow> (c0, clusterExternalSecret, \<lparr>RequeueAfter = refreshInt\<rparr>, Some err)
                 | Inr namespaceList \<Rightarrow>
                     (let esName = effectiveName clusterExternalSecret
                      in case removeOldNamespaces e c0 namespaceList esName
                                (ProvisionedNamespaces (ces_Status clusterExternalSecret)) of
                           (c1, failedNamespaces0) \<Rightarrow>
                             (case reconcileNamespaces r e clusterExternalSecret esName
                                     namespaceList (c1, failedNamespaces0, []) of
                                (c2, failedNamespaces, provisionedNamespaces) \<Rightarrow>
                                  (let condition = NewClusterExternalSecretCondition
                                         failedNamespaces namespaceList;
                                       ces1 = SetClusterExternalSecretCondition
                                         clusterExternalSecret condition;
                                       ces2 = ces1\<lparr>ces_Status := (ces_Status ces1)
                                         \<lparr>FailedNamespaces := toNamespaceFailures failedNamespaces,
                                          ProvisionedNamespaces := sort provisionedNamespaces\<rparr>\<rparr>
                                   in (c2, ces2, \<lparr>RequeueAfter = refreshInt\<rparr>, None))))))"

definition Reconcile ::
  "reconciler \<Rightarrow> env \<Rightarrow> cluster \<Rightarrow> string \<Rightarrow> cluster \<times> result \<times> error option" where
  "Reconcile r e c req =
     (let c0 = record_request (GetClusterExternalSecret req) c;
          err = (case getParentFault e req of
                   Some msg \<Rightarrow> Some (Failure msg)
                 | None \<Rightarrow> (case storedParent c req of None \<Rightarrow> Some NotFound | Some _ \<Rightarrow> None))
      in if IsNotFound err then (c0, \<lparr>RequeueAfter = 0\<rparr>, None)
         else if err \<noteq> None then (c0, \<lparr>RequeueAfter = 0\<rparr>, None)
         else
           (case storedParent c req of
              None \<Rightarrow> (c0, \<lparr>RequeueAfter = 0\<rparr>, None)
            | Some clusterExternalSecret \<Rightarrow>
                (case reconcileBody r e c0 clusterExternalSecret of
                   (c1, ces', res, err') \<Rightarrow>
                     (deferPatch e c1 ces' clusterExternalSecret, res, err'))))"

section \<open>One namespace at a time\<close>

text \<open>
  What one pass of the loop body does to the entry the cluster holds for a namespace:
  the entry after the pass, the failure reason recorded (if any) and the requests
  issued. \<open>syncEntry\<close> is the matched-namespace pass (get, check, resolve),
  \<open>removeEntry\<close> the removal pass; both are shown below to agree with the code.
\<close>

definition desiredMeta :: "string \<Rightarrow> string \<Rightarrow> externalSecretMetadata \<Rightarrow> objectMeta" where
  "desiredMeta esName name md =
     \<lparr>Name = esName, Namespace = name, UID = [], Labels = md_Labels md,
      Annotations = md_Annotations md, OwnerReferences = []\<rparr>"

definition syncEntry ::
  "reconciler \<Rightarrow> env \<Rightarrow> clusterExternalSecret \<Rightarrow> string \<Rightarrow> string \<Rightarrow> externalSecret option
     \<Rightarrow> externalSecret option \<times> string option \<times> request list" where
  "syncEntry r e ces esName name x =
     (let k = (name, esName);
          tmpl = ExternalSecretSpec (ces_Spec ces);
          getM = GetMetadata name esName;
          getE = GetExternalSecret name esName
      in case getMetadataFault e k of
           Some msg \<Rightarrow> (x, Some errGetExistingES, [getM])
         | None \<Rightarrow>
            (let existingES = (case x of None \<Rightarrow> emptyMeta
                                | Some es \<Rightarrow> es_ObjectMeta (named name esName es))
             in if x \<noteq> None \<and> OwnerReferences existingES = []
                then (x, Some errSecretAlreadyExists, [getM])
                else
                  (case SetControllerReference ces existingES (Scheme r) of
                     Inl err \<Rightarrow> (x, Some errSetCtrlReference, [getM])
                   | Inr _ \<Rightarrow>
                      (case SetControllerReference ces
                              (desiredMeta esName name (ExternalSecretMetadata (ces_Spec ces)))
                              (Scheme r) of
                         Inl err \<Rightarrow> (x, Some errSetCtrlReference, [getM])
                       | Inr meta \<Rightarrow>
                          (case getFault e k of
                             Some msg \<Rightarrow> (x, Some errCreatingOrUpdating, [getM, getE])
                           | None \<Rightarrow>
                              (case x of
                                 None \<Rightarrow>
                                   (let obj = \<lparr>es_ObjectMeta = meta, es_Spec = tmpl\<rparr>
                                    in case createFault e k of
                                         Some msg \<Rightarrow>
                                           (x, Some errCreatingOrUpdating,
                                            [getM, getE, CreateExternalSecret obj])
                                       | None \<Rightarrow>
                                           (Some obj, None,
                                            [getM, getE, CreateExternalSecret obj]))
                               | Some es \<Rightarrow>
                                   (let obj = (named name esName es)\<lparr>es_Spec := tmpl\<rparr>
                                    in if es_Spec es = tmpl then (x, None, [getM, getE])
                                       else
                                         (case updateFault e k of
                                            Some msg \<Rightarrow>
                                              (x, Some errCreatingOrUpdating,
                                               [getM, getE, UpdateExternalSecret obj])
                                          | None \<Rightarrow>
                                              (Some obj, None,
                                               [getM, getE, UpdateExternalSecret obj])))))))))"

definition removeEntry ::
  "env \<Rightarrow> string \<Rightarrow> string \<Rightarrow> externalSecret option
     \<Rightarrow> externalSecret option \<times> string option \<times> request list" where
  "removeEntry e esName name x =
     (let k = (name, esName); getM = GetMetadata name esName
      in case getMetadataFault e k of
           Some msg \<Rightarrow> (x, Some errGetExistingES, [getM])
         | None \<Rightarrow>
            (case x of
               None \<Rightarrow> (x, None, [getM])
             | Some es \<Rightarrow>
                 if OwnerReferences (es_ObjectMeta es) = []
                 then (x, Some errSecretAlreadyExists, [getM])
                 else
                   (case deleteFault e k of
                      Some msg \<Rightarrow>
                        (x, Some errFailedToDelete, [getM, DeleteExternalSecret name esName])
                    | None \<Rightarrow> (None, None, [getM, DeleteExternalSecret name esName]))))"

text \<open>
  Both loops have the same shape: for each name in turn, one pass on the entry of that
  name, the failure reason put into the failure map, the name appended to the
  provisioned list when there is none.
\<close>

definition entryStep ::
  "(string \<Rightarrow> externalSecret option \<Rightarrow> externalSecret option \<times> string option \<times> request list)
     \<Rightarrow> string \<Rightarrow> string \<Rightarrow> cluster \<times> (string \<times> string) list \<times> string list
     \<Rightarrow> cluster \<times> (string \<times> string) list \<times> string list" where
  "entryStep step esName name st =
     (case st of (c, failed, prov) \<Rightarrow>
        (case step name (secrets c (name, esName)) of
           (x', reason, qs) \<Rightarrow>
             (c\<lparr>requests := requests c @ qs, secrets := (secrets c)((name, esName) := x')\<rparr>,
              (case reason of None \<Rightarrow> failed | Some m \<Rightarrow> AList.update name m failed),
              (case reason of None \<Rightarrow> prov @ [name] | Some _ \<Rightarrow> prov))))"

fun entryLoop ::
  "(string \<Rightarrow> externalSecret option \<Rightarrow> externalSecret option \<times> string option \<times> request list)
     \<Rightarrow> string \<Rightarrow> string list \<Rightarrow> cluster \<times> (string \<times> string) list \<times> string list
     \<Rightarrow> cluster \<times> (string \<times> string) list \<times> string list" where
  "entryLoop step esName [] st = st"
| "entryLoop step esName (name # rest) st =
     entryLoop step esName rest (entryStep step esName name st)"

section \<open>Observations and concrete inputs\<close>

text \<open>Namespaces named \<open>team-a\<close> with a nil label map, an empty one and one label.\<close>

definition ns_nilLabels :: namespace where
  "ns_nilLabels = \<lparr>ns_ObjectMeta = emptyMeta\<lparr>Name := ''team-a''\<rparr>\<rparr>"

definition ns_emptyLabels :: namespace where
  "ns_emptyLabels =
     \<lparr>ns_ObjectMeta = emptyMeta\<lparr>Name := ''team-a'', Labels := Some Map.empty\<rparr>\<rparr>"

definition ns_prodLabels :: namespace where
  "ns_prodLabels =
     \<lparr>ns_ObjectMeta = emptyMeta\<lparr>Name := ''team-a'', Labels := Some [''env'' \<mapsto> ''prod'']\<rparr>\<rparr>"

text \<open>
  Observations on the requests: the object a request is about, whether it writes, and
  the status patches among the requests.
\<close>

fun target :: "request \<Rightarrow> (string \<times> string) option" where
  "target (GetMetadata namespace name) = Some (namespace, name)"
| "target (GetExternalSecret namespace name) = Some (namespace, name)"
| "target (CreateExternalSecret obj) = Some (ObjectKeyFromObject obj)"
| "target (UpdateExternalSecret obj) = Some (ObjectKeyFromObject obj)"
| "target (DeleteExternalSecret namespace name) = Some (namespace, name)"
| "target _ = None"

fun isWrite :: "request \<Rightarrow> bool" where
  "isWrite (CreateExternalSecret obj) = True"
| "isWrite (UpdateExternalSecret obj) = True"
| "isWrite (DeleteExternalSecret namespace name) = True"
| "isWrite _ = False"

definition statusPatches ::
  "request list \<Rightarrow> (clusterExternalSecret \<times> clusterExternalSecret) list" where
  "statusPatches qs = concat (map (\<lambda>q. case q of PatchStatus p m \<Rightarrow> [(p, m)] | _ \<Rightarrow> []) qs)"

definition patchedStatus :: "cluster \<Rightarrow> clusterExternalSecretStatus option" where
  "patchedStatus c =
     (case rev (statusPatches (requests c)) of
        [] \<Rightarrow> None
      | (p, m) # earlier \<Rightarrow> Some (ces_Status m))"

text \<open>
  A reconciler, a parent named \<open>ces\<close> that selects the namespace \<open>a\<close> and has
  provisioned \<open>b\<close> before, children of namespace \<open>b\<close>, and environments in which
  one kind of request fails.
\<close>

definition reconciler0 :: reconciler where
  "reconciler0 =
     \<lparr>RequeueInterval = 3600,
      Scheme = Some (''external-secrets.io'', ''v1beta1'', ''ClusterExternalSecret'')\<rparr>"

definition parent0 :: clusterExternalSecret where
  "parent0 =
     \<lparr>ces_ObjectMeta = emptyMeta\<lparr>Name := ''ces'', UID := ''uid-1''\<rparr>,
      ces_Spec = \<lparr>ExternalSecretSpec = ''template'', ExternalSecretName = [],
                  ExternalSecretMetadata = \<lparr>md_Annotations = None, md_Labels = None\<rparr>,
                  NamespaceSelector = ''env=prod'', RefreshInterval = Some 60\<rparr>,
      ces_Status = \<lparr>FailedNamespaces = [], ProvisionedNamespaces = [''b''],
                    Conditions = None\<rparr>\<rparr>"

definition namespace_a :: namespace where
  "namespace_a = \<lparr>ns_ObjectMeta = emptyMeta\<lparr>Name := ''a''\<rparr>\<rparr>"

definition env0 :: env where
  "env0 =
     \<lparr>LabelSelectorAsSelector = Inr,
      ListResult = (\<lambda>selector. Inr [namespace_a]),
      getParentFault = (\<lambda>name. None),
      getMetadataFault = (\<lambda>key. None),
      getFault = (\<lambda>key. None),
      createFault = (\<lambda>key. None),
      updateFault = (\<lambda>key. None),
      deleteFault = (\<lambda>key. None),
      patchFault = (\<lambda>name. None)\<rparr>"

definition deployment_ref :: ownerReference where
  "deployment_ref =
     \<lparr>or_Group = ''apps'', or_Version = ''v1'', or_Kind = ''Deployment'', or_Name = ''web'',
      or_UID = ''uid-2'', or_Controller = Some True, or_BlockOwnerDeletion = Some True\<rparr>"

definition unowned_child :: externalSecret where
  "unowned_child =
     \<lparr>es_ObjectMeta = emptyMeta\<lparr>Name := ''ces'', Namespace := ''b''\<rparr>, es_Spec = ''foreign''\<rparr>"

definition foreign_child :: externalSecret where
  "foreign_child =
     \<lparr>es_ObjectMeta = emptyMeta\<lparr>Name := ''ces'', Namespace := ''b'',
                                 OwnerReferences := [deployment_ref]\<rparr>,
      es_Spec = ''foreign''\<rparr>"

definition cluster_unowned :: cluster where
  "cluster_unowned =
     \<lparr>parents = [''ces'' \<mapsto> parent0], secrets = [(''b'', ''ces'') \<mapsto> unowned_child],
      requests = []\<rparr>"

definition foreign_child_a :: externalSecret where
  "foreign_child_a =
     foreign_child\<lparr>es_ObjectMeta := (es_ObjectMeta foreign_child)\<lparr>Namespace := ''a''\<rparr>\<rparr>"

definition cluster_foreign_matched :: cluster where
  "cluster_foreign_matched =
     \<lparr>parents = [''ces'' \<mapsto> parent0], secrets = [(''a'', ''ces'') \<mapsto> foreign_child_a],
      requests = []\<rparr>"

definition helper_child_a :: externalSecret where
  "helper_child_a =
     \<lparr>es_ObjectMeta = emptyMeta\<lparr>Name := ''ces'', Namespace := ''a'',
                                 OwnerReferences := [deployment_ref\<lparr>or_Controller := None\<rparr>]\<rparr>,
      es_Spec = ''foreign''\<rparr>"

definition cluster_helper_matched :: cluster where
  "cluster_helper_matched =
     \<lparr>parents = [''ces'' \<mapsto> parent0], secrets = [(''a'', ''ces'') \<mapsto> helper_child_a],
      requests = []\<rparr>"

definition cluster_foreign :: cluster where
  "cluster_foreign =
     \<lparr>parents = [''ces'' \<mapsto> parent0], secrets = [(''b'', ''ces'') \<mapsto> foreign_child],
      requests = []\<rparr>"

definition env_getError :: env where
  "env_getError = env0\<lparr>getParentFault := (\<lambda>name. Some ''timeout'')\<rparr>"

definition env_badSelector :: env where
  "env_badSelector = env0\<lparr>LabelSelectorAsSelector := (\<lambda>selector. Inl (Failure ''invalid''))\<rparr>"

definition env_listError :: env where
  "env_listError = env0\<lparr>ListResult := (\<lambda>selector. Inl (Failure ''unavailable''))\<rparr>"

definition env_patchError :: env where
  "env_patchError = env0\<lparr>patchFault := (\<lambda>name. Some ''conflict'')\<rparr>"

definition owned_ref :: ownerReference where
  "owned_ref =
     \<lparr>or_Group = ''external-secrets.io'', or_Version = ''v1beta1'',
      or_Kind = ''ClusterExternalSecret'', or_Name = ''ces'', or_UID = ''uid-1'',
      or_Controller = Some True, or_BlockOwnerDeletion = Some True\<rparr>"

definition old_child :: externalSecret where
  "old_child =
     \<lparr>es_ObjectMeta = emptyMeta\<lparr>Name := ''old'', Namespace := ''a'',
                                 OwnerReferences := [owned_ref]\<rparr>,
      es_Spec = ''template''\<rparr>"

definition parent_renamed :: clusterExternalSecret where
  "parent_renamed =
     parent0\<lparr>ces_Spec := (ces_Spec parent0)\<lparr>ExternalSecretName := ''new''\<rparr>,
             ces_Status := (ces_Status parent0)\<lparr>ProvisionedNamespaces := [''a'']\<rparr>\<rparr>"

definition cluster_renamed :: cluster where
  "cluster_renamed =
     \<lparr>parents = [''ces'' \<mapsto> parent_renamed], secrets = [(''a'', ''old'') \<mapsto> old_child],
      requests = []\<rparr>"


definition namespace_b :: namespace where
  "namespace_b = \<lparr>ns_ObjectMeta = emptyMeta\<lparr>Name := ''b''\<rparr>\<rparr>"

definition env_ab :: env where
  "env_ab = env0\<lparr>ListResult := (\<lambda>selector. Inr [namespace_a, namespace_b])\<rparr>"

definition env_ba :: env where
  "env_ba = env0\<lparr>ListResult := (\<lambda>selector. Inr [namespace_b, namespace_a])\<rparr>"

text \<open>
  The object already has a controller, and \<^verbatim>\<open>SetControllerReference\<close> refuses the owner
  for it: the controller's reference differs from the owner's in group, kind or name
  (\<^verbatim>\<open>referSameObject\<close> does not compare the UID), or the scheme does not know the owner's
  kind.
\<close>

definition controlledByAnother ::
  "reconciler \<Rightarrow> clusterExternalSecret \<Rightarrow> objectMeta \<Rightarrow> bool" where
  "controlledByAnother r owner controlled =
     (case GetControllerOf controlled of
        None \<Rightarrow> False
      | Some existing \<Rightarrow>
          (case Scheme r of
             None \<Rightarrow> True
           | Some (apiGroup, apiVersion, apiKind) \<Rightarrow>
               or_Group existing \<noteq> apiGroup \<or> or_Kind existing \<noteq> apiKind
               \<or> or_Name existing \<noteq> Name (ces_ObjectMeta owner)))"

text \<open>
  Children of the parent in the namespaces \<open>b\<close> and \<open>c\<close>, which no longer match, and
  an environment in which the delete in \<open>b\<close> fails.
\<close>

definition owned_child :: "string \<Rightarrow> externalSecret" where
  "owned_child namespace =
     \<lparr>es_ObjectMeta = emptyMeta\<lparr>Name := ''ces'', Namespace := namespace,
                                 OwnerReferences := [owned_ref]\<rparr>,
      es_Spec = ''template''\<rparr>"

definition cluster_owned :: cluster where
  "cluster_owned =
     \<lparr>parents = [''ces'' \<mapsto> parent0],
      secrets = [(''b'', ''ces'') \<mapsto> owned_child ''b'', (''c'', ''ces'') \<mapsto> owned_child ''c''],
      requests = []\<rparr>"

definition env_deleteError :: env where
  "env_deleteError =
     env0\<lparr>deleteFault := (\<lambda>key. if key = (''b'', ''ces'') then Some ''forbidden'' else None)\<rparr>"

section \<open>Properties\<close>

text \<open>The definitions of the model and of the shared concrete inputs, for evaluation.\<close>

lemmas model_defs = Reconcile_def reconcileBody_def removeOldNamespaces_def
  getRemovedNamespaces_def removeExternalSecret_def getExternalSecret_def checkForError_def
  Delete_def resolveExternalSecret_def CreateOrUpdate_def mutate_def SetControllerReference_def
  validateOwner_def GetControllerOf_def referSameObject_def reconcileNamespace_def
  deferPatch_def mergeStatus_def NewClusterExternalSecretCondition_def
  SetClusterExternalSecretCondition_def toNamespaceFailures_def effectiveName_def
  effectiveInterval_def stored_def storedParent_def named_def record_request_def
  ObjectKeyFromObject_def Semantic_DeepEqual_def entries_def IsNotFound_def emptyMeta_def
  errGetExistingES_def errCreatingOrUpdating_def errSetCtrlReference_def
  errSecretAlreadyExists_def errFailedToDelete_def

lemmas input_defs = reconciler0_def parent0_def namespace_a_def env0_def deployment_ref_def
  unowned_child_def foreign_child_def cluster_unowned_def cluster_foreign_def

subsection \<open>The membership differ\<close>

lemma nsSet_fold:
  "fold (\<lambda>n s. insert (Name (ns_ObjectMeta n)) s) nsList S
     = S \<union> (\<lambda>n. Name (ns_ObjectMeta n)) ` set nsList"
  by (induction nsList arbitrary: S) auto

lemma removed_fold:
  "fold (\<lambda>ns removed. if ns \<in> S then removed else removed @ [ns]) xs acc
     = acc @ filter (\<lambda>ns. ns \<notin> S) xs"
  by (induction xs arbitrary: acc) auto

lemma getRemovedNamespaces_filter:
  "getRemovedNamespaces nsList provisionedNs
     = filter (\<lambda>ns. ns \<notin> (\<lambda>n. Name (ns_ObjectMeta n)) ` set nsList) provisionedNs"
  by (simp add: getRemovedNamespaces_def nsSet_fold removed_fold)

text \<open>
  C4. The namespaces returned by \<^verbatim>\<open>getRemovedNamespaces\<close> are exactly those of the
  previously provisioned list whose name is not the name of a currently matched
  namespace; no name that is in both lists is returned.
\<close>

theorem getRemovedNamespaces_difference:
  "set (getRemovedNamespaces nsList provisionedNs)
     = set provisionedNs - (\<lambda>n. Name (ns_ObjectMeta n)) ` set nsList
   \<and> set (getRemovedNamespaces nsList provisionedNs)
       \<inter> (\<lambda>n. Name (ns_ObjectMeta n)) ` set nsList = {}"
  by (auto simp: getRemovedNamespaces_filter)

subsection \<open>The namespace event predicate\<close>

lemma graph_inject: "Map.graph m = Map.graph n \<longleftrightarrow> m = n"
proof
  assume h: "Map.graph m = Map.graph n"
  show "m = n"
  proof (rule ext)
    fix k show "m k = n k"
    proof (cases "m k")
      case None
      then show ?thesis using h by (metis in_graphD in_graphI not_Some_eq)
    next
      case (Some v)
      then show ?thesis using h by (metis in_graphD in_graphI)
    qed
  qed
qed simp

text \<open>
  C9, as the claim states it, fails: an update from a nil label map to an empty one
  passes the predicate although the two label sets are equal (both are empty).
\<close>

theorem namespacePredicate_counterexample:
  "UpdateFunc namespacePredicate (UpdateEvent (Some ns_nilLabels) (Some ns_emptyLabels))
   \<and> labelSet ns_nilLabels = labelSet ns_emptyLabels"
  by (simp add: namespacePredicate_def DeepEqual_def GetLabels_def labelSet_def
      ns_nilLabels_def ns_emptyLabels_def emptyMeta_def)

text \<open>
  C9, amended. A create or a delete event always passes the predicate; an update event
  with a nil old or new object never does; an update event with both objects passes if
  and only if the label sets differ or exactly one of the two label maps is nil.
\<close>

theorem namespacePredicate_triggers:
  "CreateFunc namespacePredicate ce
   \<and> DeleteFunc namespacePredicate de
   \<and> \<not> UpdateFunc namespacePredicate (UpdateEvent None new)
   \<and> \<not> UpdateFunc namespacePredicate (UpdateEvent old None)
   \<and> UpdateFunc namespacePredicate (UpdateEvent (Some ObjectOld) (Some ObjectNew))
       = (labelSet ObjectOld \<noteq> labelSet ObjectNew
          \<or> (GetLabels ObjectOld = None) \<noteq> (GetLabels ObjectNew = None))"
  by (auto simp: namespacePredicate_def DeepEqual_def labelSet_def graph_inject
      split: option.splits)

theorem namespacePredicate_triggers_witness:
  "UpdateFunc namespacePredicate (UpdateEvent (Some ns_nilLabels) (Some ns_prodLabels))
   \<and> labelSet ns_nilLabels \<noteq> labelSet ns_prodLabels
   \<and> \<not> UpdateFunc namespacePredicate (UpdateEvent (Some ns_prodLabels) (Some ns_prodLabels))
   \<and> \<not> UpdateFunc namespacePredicate (UpdateEvent None (Some ns_prodLabels))
   \<and> CreateFunc namespacePredicate (CreateEvent (Some ns_prodLabels))
   \<and> DeleteFunc namespacePredicate (DeleteEvent (Some ns_prodLabels))"
  using
    namespacePredicate_triggers [of "CreateEvent (Some ns_prodLabels)"
      "DeleteEvent (Some ns_prodLabels)" "Some ns_prodLabels" "Some ns_prodLabels"
      ns_nilLabels ns_prodLabels]
    namespacePredicate_triggers [of "CreateEvent (Some ns_prodLabels)"
      "DeleteEvent (Some ns_prodLabels)" "Some ns_prodLabels" "Some ns_prodLabels"
      ns_prodLabels ns_prodLabels]
  by (simp add: labelSet_def GetLabels_def ns_nilLabels_def ns_prodLabels_def emptyMeta_def
      graph_map_upd)

subsection \<open>The loops, one entry at a time\<close>


lemma SetControllerReference_key:
  "SetControllerReference ces m s = Inr m' \<Longrightarrow> Name m' = Name m \<and> Namespace m' = Namespace m"
  by (auto simp: SetControllerReference_def Let_def split: option.splits if_splits prod.splits)

lemma err_nonempty [simp]:
  "errGetExistingES \<noteq> []" "errSecretAlreadyExists \<noteq> []" "errSetCtrlReference \<noteq> []"
  "errCreatingOrUpdating \<noteq> []" "errFailedToDelete \<noteq> []"
  by (simp_all add: errGetExistingES_def errSecretAlreadyExists_def errSetCtrlReference_def
      errCreatingOrUpdating_def errFailedToDelete_def)

lemma getExternalSecret_eq:
  "getExternalSecret e c namespace name =
     (record_request (GetMetadata namespace name) c,
      (case getMetadataFault e (namespace, name) of
         Some msg \<Rightarrow> (emptyMeta, Some (Failure msg))
       | None \<Rightarrow> (case secrets c (namespace, name) of
                    None \<Rightarrow> (emptyMeta, Some NotFound)
                  | Some es \<Rightarrow> (es_ObjectMeta (named namespace name es), None))))"
  by (simp add: getExternalSecret_def stored_def named_def Let_def split: option.splits)

lemma Semantic_DeepEqual_spec:
  "Semantic_DeepEqual es (es\<lparr>es_Spec := t\<rparr>) \<longleftrightarrow> es_Spec es = t"
  by (auto simp: Semantic_DeepEqual_def)

lemma CreateOrUpdate_eq:
  assumes "ObjectKeyFromObject obj = k"
  shows "CreateOrUpdate e c obj (\<lambda>ob. Inr (ob\<lparr>es_Spec := t\<rparr>)) =
     (case getFault e k of
        Some msg \<Rightarrow> (record_request (GetExternalSecret (fst k) (snd k)) c, Some (Failure msg))
      | None \<Rightarrow>
         (case secrets c k of
            None \<Rightarrow>
              (case createFault e k of
                 Some msg \<Rightarrow> (c\<lparr>requests := requests c @ [GetExternalSecret (fst k) (snd k), CreateExternalSecret (obj\<lparr>es_Spec := t\<rparr>)]\<rparr>, Some (Failure msg))
               | None \<Rightarrow> (c\<lparr>requests := requests c @ [GetExternalSecret (fst k) (snd k), CreateExternalSecret (obj\<lparr>es_Spec := t\<rparr>)],
                            secrets := (secrets c)(k \<mapsto> obj\<lparr>es_Spec := t\<rparr>)\<rparr>, None))
          | Some es \<Rightarrow>
              if es_Spec es = t then (record_request (GetExternalSecret (fst k) (snd k)) c, None)
              else
              (case updateFault e k of
                 Some msg \<Rightarrow> (c\<lparr>requests := requests c @ [GetExternalSecret (fst k) (snd k), UpdateExternalSecret ((named (fst k) (snd k) es)\<lparr>es_Spec := t\<rparr>)]\<rparr>, Some (Failure msg))
               | None \<Rightarrow> (c\<lparr>requests := requests c @ [GetExternalSecret (fst k) (snd k), UpdateExternalSecret ((named (fst k) (snd k) es)\<lparr>es_Spec := t\<rparr>)],
                            secrets := (secrets c)(k \<mapsto> (named (fst k) (snd k) es)\<lparr>es_Spec := t\<rparr>)\<rparr>, None))))"
  using assms
  by (auto simp: CreateOrUpdate_def mutate_def stored_def named_def Let_def record_request_def
      ObjectKeyFromObject_def Semantic_DeepEqual_def split: option.splits)


lemma reconcileNamespace_eq:
  "reconcileNamespace r e ces esName ns (c, failed, prov) =
     (case syncEntry r e ces esName (Name (ns_ObjectMeta ns))
             (secrets c (Name (ns_ObjectMeta ns), esName)) of
        (x', reason, qs) \<Rightarrow>
          (c\<lparr>requests := requests c @ qs,
             secrets := (secrets c)((Name (ns_ObjectMeta ns), esName) := x')\<rparr>,
           (case reason of None \<Rightarrow> failed
            | Some m \<Rightarrow> AList.update (Name (ns_ObjectMeta ns)) m failed),
           (case reason of None \<Rightarrow> prov @ [Name (ns_ObjectMeta ns)] | Some _ \<Rightarrow> prov)))"
proof -
  have key: "\<And>meta. SetControllerReference ces
       (desiredMeta esName (Name (ns_ObjectMeta ns)) (ExternalSecretMetadata (ces_Spec ces)))
       (Scheme r) = Inr meta \<Longrightarrow>
     ObjectKeyFromObject \<lparr>es_ObjectMeta = meta, es_Spec = ExternalSecretSpec (ces_Spec ces)\<rparr>
       = (Name (ns_ObjectMeta ns), esName)"
    by (auto simp: ObjectKeyFromObject_def desiredMeta_def dest!: SetControllerReference_key)
  show ?thesis
    unfolding reconcileNamespace_def resolveExternalSecret_def getExternalSecret_eq
      syncEntry_def checkForError_def IsNotFound_def
    by (auto simp: Let_def record_request_def desiredMeta_def [symmetric]
        CreateOrUpdate_eq [OF key] named_def fun_upd_idem
        split: option.splits sum.splits prod.splits)
qed


lemma SetControllerReference_fresh:
  assumes "SetControllerReference ces emptyMeta s = Inr m0"
    and "SetControllerReference ces (desiredMeta esName name md) s = Inr meta"
  shows "OwnerReferences meta \<noteq> []"
    and "\<exists>m'. SetControllerReference ces (meta\<lparr>Name := esName, Namespace := name\<rparr>) s = Inr m'"
  using assms
  by (auto simp: SetControllerReference_def validateOwner_def emptyMeta_def desiredMeta_def
      GetControllerOf_def referSameObject_def Let_def
      split: option.splits if_splits prod.splits)

lemma named_named [simp]: "named n m (named n m es) = named n m es"
  by (simp add: named_def)

lemma named_spec [simp]: "es_Spec (named n m es) = es_Spec es"
  by (simp add: named_def)

lemma syncEntry_stable:
  assumes "syncEntry r e ces esName name x = (x', reason, qs)"
  shows "\<exists>qs'. syncEntry r e ces esName name x' = (x', reason, qs')"
proof (cases "getMetadataFault e (name, esName)")
  case (Some msg)
  then show ?thesis using assms by (auto simp: syncEntry_def)
next
  case None
  note noFault = None
  show ?thesis
  proof (cases x)
    case None
    show ?thesis
      using assms noFault None
      by (auto simp: syncEntry_def Let_def named_def
          dest: SetControllerReference_fresh
          split: option.splits sum.splits if_splits)
  next
    case (Some es)
    show ?thesis
      using assms noFault Some
      by (auto simp: syncEntry_def Let_def named_def
          split: option.splits sum.splits if_splits)
  qed
qed


lemma reconcileNamespaces_entryLoop:
  "reconcileNamespaces r e ces esName nsList st =
     entryLoop (syncEntry r e ces esName) esName (map (\<lambda>n. Name (ns_ObjectMeta n)) nsList) st"
proof (induction nsList arbitrary: st)
  case Nil
  show ?case by simp
next
  case (Cons n rest)
  obtain c failed prov where st: "st = (c, failed, prov)" by (cases st)
  show ?case
    by (simp add: Cons st reconcileNamespace_eq entryStep_def)
qed

lemma removeExternalSecret_eq:
  "\<exists>err. removeExternalSecret e c esName name =
     (case removeEntry e esName name (secrets c (name, esName)) of
        (x', reason, qs) \<Rightarrow>
          (c\<lparr>requests := requests c @ qs, secrets := (secrets c)((name, esName) := x')\<rparr>,
           (case reason of None \<Rightarrow> [] | Some m \<Rightarrow> m), err))"
  unfolding removeExternalSecret_def getExternalSecret_eq removeEntry_def checkForError_def
    IsNotFound_def Delete_def
  by (auto simp: Let_def record_request_def named_def fun_upd_idem
      split: option.splits sum.splits prod.splits)

lemma removeLoop_entryLoop:
  "removeLoop e esName names (c, failed) =
     (case entryLoop (removeEntry e esName) esName names (c, failed, prov) of
        (c', failed', prov') \<Rightarrow> (c', failed'))"
proof (induction names arbitrary: c failed prov)
  case Nil
  show ?case by simp
next
  case (Cons name rest)
  obtain x' reason qs where
    re: "removeEntry e esName name (secrets c (name, esName)) = (x', reason, qs)"
    by (cases "removeEntry e esName name (secrets c (name, esName))") auto
  obtain err where
    rm: "removeExternalSecret e c esName name =
         (c\<lparr>requests := requests c @ qs, secrets := (secrets c)((name, esName) := x')\<rparr>,
          (case reason of None \<Rightarrow> [] | Some m \<Rightarrow> m), err)"
    using removeExternalSecret_eq [of e c esName name] re by auto
  have ne: "\<And>m. reason = Some m \<Longrightarrow> m \<noteq> []"
    using re by (auto simp: removeEntry_def Let_def split: option.splits if_splits)
  show ?case
  proof (cases reason)
    case None
    show ?thesis
      using Cons [of "c\<lparr>requests := requests c @ qs,
                      secrets := (secrets c)((name, esName) := x')\<rparr>" failed "prov @ [name]"]
      by (simp add: rm re None entryStep_def)
  next
    case (Some m)
    show ?thesis
      using Cons [of "c\<lparr>requests := requests c @ qs,
                      secrets := (secrets c)((name, esName) := x')\<rparr>"
                     "AList.update name m failed" prov] ne [OF Some]
      by (simp add: rm re Some entryStep_def)
  qed
qed

lemma removeEntry_stable:
  assumes "removeEntry e esName name x = (x', reason, qs)"
  shows "\<exists>qs'. removeEntry e esName name x' = (x', reason, qs')"
  using assms by (auto simp: removeEntry_def Let_def split: option.splits if_splits)


lemma entryStep_parts:
  assumes "entryStep step esName n (c, f, p) = (c1, f1, p1)"
  shows "parents c1 = parents c"
    and "secrets c1 = (secrets c)((n, esName) := fst (step n (secrets c (n, esName))))"
    and "requests c1 = requests c @ snd (snd (step n (secrets c (n, esName))))"
    and "f1 = (case fst (snd (step n (secrets c (n, esName)))) of
                 None \<Rightarrow> f | Some m \<Rightarrow> AList.update n m f)"
    and "p1 = (case fst (snd (step n (secrets c (n, esName)))) of
                 None \<Rightarrow> p @ [n] | Some _ \<Rightarrow> p)"
  using assms by (auto simp: entryStep_def split: prod.splits)

lemma entryLoop_parents:
  "entryLoop step esName names (c, f, p) = (c', f', p') \<Longrightarrow> parents c' = parents c"
proof (induction names arbitrary: c f p)
  case Nil
  then show ?case by simp
next
  case (Cons n rest)
  obtain c1 f1 p1 where s1: "entryStep step esName n (c, f, p) = (c1, f1, p1)"
    by (cases "entryStep step esName n (c, f, p)") auto
  show ?case
    using Cons.IH [of c1 f1 p1] Cons.prems entryStep_parts(1) [OF s1] by (simp add: s1)
qed

lemma entryLoop_secrets:
  assumes stab: "\<And>n x. fst (step n (fst (step n x))) = fst (step n x)"
  shows "entryLoop step esName names (c, f, p) = (c', f', p') \<Longrightarrow>
     secrets c' k = (if snd k = esName \<and> fst k \<in> set names
                     then fst (step (fst k) (secrets c k)) else secrets c k)"
proof (induction names arbitrary: c f p)
  case Nil
  then show ?case by simp
next
  case (Cons n rest)
  obtain c1 f1 p1 where s1: "entryStep step esName n (c, f, p) = (c1, f1, p1)"
    by (cases "entryStep step esName n (c, f, p)") auto
  have ih: "secrets c' k = (if snd k = esName \<and> fst k \<in> set rest
                     then fst (step (fst k) (secrets c1 k)) else secrets c1 k)"
    using Cons.IH [of c1 f1 p1] Cons.prems by (simp add: s1)
  show ?case
    unfolding ih entryStep_parts(2) [OF s1]
    by (cases k) (auto simp: stab)
qed

lemma entryLoop_prov:
  assumes stab: "\<And>n x. fst (snd (step n (fst (step n x)))) = fst (snd (step n x))"
  shows "entryLoop step esName names (c, f, p) = (c', f', p') \<Longrightarrow>
     p' = p @ filter (\<lambda>n. fst (snd (step n (secrets c (n, esName)))) = None) names"
proof (induction names arbitrary: c f p)
  case Nil
  then show ?case by simp
next
  case (Cons n rest)
  obtain c1 f1 p1 where s1: "entryStep step esName n (c, f, p) = (c1, f1, p1)"
    by (cases "entryStep step esName n (c, f, p)") auto
  have ih: "p' = p1 @ filter (\<lambda>m. fst (snd (step m (secrets c1 (m, esName)))) = None) rest"
    using Cons.IH [of c1 f1 p1] Cons.prems by (simp add: s1)
  have same: "\<And>m. fst (snd (step m (secrets c1 (m, esName))))
                  = fst (snd (step m (secrets c (m, esName))))"
    unfolding entryStep_parts(2) [OF s1] by (simp add: stab)
  show ?case
    unfolding ih same entryStep_parts(5) [OF s1]
    by (simp split: option.splits)
qed

lemma entryLoop_failed:
  assumes stab: "\<And>n x. fst (snd (step n (fst (step n x)))) = fst (snd (step n x))"
  shows "entryLoop step esName names (c, f, p) = (c', f', p') \<Longrightarrow>
     map_of f' n = (if n \<in> set names
                    then (case fst (snd (step n (secrets c (n, esName)))) of
                            None \<Rightarrow> map_of f n | Some m \<Rightarrow> Some m)
                    else map_of f n)"
proof (induction names arbitrary: c f p)
  case Nil
  then show ?case by simp
next
  case (Cons a rest)
  obtain c1 f1 p1 where s1: "entryStep step esName a (c, f, p) = (c1, f1, p1)"
    by (cases "entryStep step esName a (c, f, p)") auto
  have ih: "map_of f' n = (if n \<in> set rest
                    then (case fst (snd (step n (secrets c1 (n, esName)))) of
                            None \<Rightarrow> map_of f1 n | Some m \<Rightarrow> Some m)
                    else map_of f1 n)"
    using Cons.IH [of c1 f1 p1] Cons.prems by (simp add: s1)
  have same: "\<And>m. fst (snd (step m (secrets c1 (m, esName))))
                  = fst (snd (step m (secrets c (m, esName))))"
    unfolding entryStep_parts(2) [OF s1] by (simp add: stab)
  show ?case
    unfolding ih same entryStep_parts(4) [OF s1]
    by (auto simp: update_conv' split: option.splits)
qed

lemma entryLoop_distinct:
  "entryLoop step esName names (c, f, p) = (c', f', p') \<Longrightarrow> distinct (map fst f)
     \<Longrightarrow> distinct (map fst f')"
proof (induction names arbitrary: c f p)
  case Nil
  then show ?case by simp
next
  case (Cons a rest)
  obtain c1 f1 p1 where s1: "entryStep step esName a (c, f, p) = (c1, f1, p1)"
    by (cases "entryStep step esName a (c, f, p)") auto
  have "distinct (map fst f1)"
    unfolding entryStep_parts(4) [OF s1] using Cons.prems(2)
    by (simp add: distinct_update split: option.splits)
  then show ?case
    using Cons.IH [of c1 f1 p1] Cons.prems(1) by (simp add: s1)
qed

lemma entryLoop_requests:
  assumes stab: "\<And>n x. fst (step n (fst (step n x))) = fst (step n x)"
  shows "entryLoop step esName names (c, f, p) = (c', f', p') \<Longrightarrow>
     \<exists>qs. requests c' = requests c @ qs
        \<and> (\<forall>q\<in>set qs. \<exists>n\<in>set names.
               q \<in> set (snd (snd (step n (secrets c (n, esName)))))
             \<or> q \<in> set (snd (snd (step n (fst (step n (secrets c (n, esName))))))))"
proof (induction names arbitrary: c f p)
  case Nil
  then show ?case by simp
next
  case (Cons a rest)
  obtain c1 f1 p1 where s1: "entryStep step esName a (c, f, p) = (c1, f1, p1)"
    by (cases "entryStep step esName a (c, f, p)") auto
  obtain qs where qs: "requests c' = requests c1 @ qs"
    and each: "\<forall>q\<in>set qs. \<exists>n\<in>set rest.
               q \<in> set (snd (snd (step n (secrets c1 (n, esName)))))
             \<or> q \<in> set (snd (snd (step n (fst (step n (secrets c1 (n, esName)))))))"
    using Cons.IH [of c1 f1 p1] Cons.prems by (auto simp: s1)
  have c1: "\<And>n. secrets c1 (n, esName) = (if n = a then fst (step a (secrets c (a, esName)))
                                            else secrets c (n, esName))"
    unfolding entryStep_parts(2) [OF s1] by simp
  have "\<forall>q\<in>set qs. \<exists>n\<in>set (a # rest).
               q \<in> set (snd (snd (step n (secrets c (n, esName)))))
             \<or> q \<in> set (snd (snd (step n (fst (step n (secrets c (n, esName)))))))"
  proof
    fix q assume "q \<in> set qs"
    then obtain n where n: "n \<in> set rest"
      and q: "q \<in> set (snd (snd (step n (secrets c1 (n, esName)))))
             \<or> q \<in> set (snd (snd (step n (fst (step n (secrets c1 (n, esName)))))))"
      using each by blast
    show "\<exists>n\<in>set (a # rest).
               q \<in> set (snd (snd (step n (secrets c (n, esName)))))
             \<or> q \<in> set (snd (snd (step n (fst (step n (secrets c (n, esName)))))))"
    proof (cases "n = a")
      case True
      then show ?thesis using q c1 [of a] by (auto simp: stab)
    next
      case False
      then show ?thesis using q n c1 [of n] by auto
    qed
  qed
  then show ?case
    unfolding qs entryStep_parts(3) [OF s1]
    by (intro exI [of _ "snd (snd (step a (secrets c (a, esName)))) @ qs"]) auto
qed

subsection \<open>The cycle as two loops\<close>

lemma syncEntry_stab1:
  "fst (syncEntry r e ces esName n (fst (syncEntry r e ces esName n x)))
     = fst (syncEntry r e ces esName n x)"
  using syncEntry_stable [of r e ces esName n x]
  by (cases "syncEntry r e ces esName n x") auto

lemma syncEntry_stab2:
  "fst (snd (syncEntry r e ces esName n (fst (syncEntry r e ces esName n x))))
     = fst (snd (syncEntry r e ces esName n x))"
  using syncEntry_stable [of r e ces esName n x]
  by (cases "syncEntry r e ces esName n x") auto

lemma removeEntry_stab1:
  "fst (removeEntry e esName n (fst (removeEntry e esName n x)))
     = fst (removeEntry e esName n x)"
  using removeEntry_stable [of e esName n x]
  by (cases "removeEntry e esName n x") auto

lemma removeEntry_stab2:
  "fst (snd (removeEntry e esName n (fst (removeEntry e esName n x))))
     = fst (snd (removeEntry e esName n x))"
  using removeEntry_stable [of e esName n x]
  by (cases "removeEntry e esName n x") auto

lemma reconcileBody_selector_error:
  "LabelSelectorAsSelector e (NamespaceSelector (ces_Spec ces)) = Inl err \<Longrightarrow>
   reconcileBody r e c ces = (c, ces, \<lparr>RequeueAfter = effectiveInterval r ces\<rparr>, Some err)"
  by (simp add: reconcileBody_def)

lemma reconcileBody_list_error:
  "LabelSelectorAsSelector e (NamespaceSelector (ces_Spec ces)) = Inr ls \<Longrightarrow>
   ListResult e ls = Inl err \<Longrightarrow>
   reconcileBody r e c ces = (record_request (ListNamespaces ls) c, ces, \<lparr>RequeueAfter = effectiveInterval r ces\<rparr>, Some err)"
  by (simp add: reconcileBody_def)

lemma reconcileBody_loops:
  assumes "LabelSelectorAsSelector e (NamespaceSelector (ces_Spec ces)) = Inr ls"
    and "ListResult e ls = Inr nsList"
  obtains c1 f0 p0 c2 f p where
    "entryLoop (removeEntry e (effectiveName ces)) (effectiveName ces)
       (getRemovedNamespaces nsList (ProvisionedNamespaces (ces_Status ces)))
       (record_request (ListNamespaces ls) c, [], []) = (c1, f0, p0)"
    "entryLoop (syncEntry r e ces (effectiveName ces)) (effectiveName ces)
       (map (\<lambda>n. Name (ns_ObjectMeta n)) nsList) (c1, f0, []) = (c2, f, p)"
    "reconcileBody r e c ces =
       (c2,
        ces\<lparr>ces_Status := \<lparr>FailedNamespaces = toNamespaceFailures f,
                            ProvisionedNamespaces = sort p,
                            Conditions = Some (NewClusterExternalSecretCondition f nsList)\<rparr>\<rparr>,
        \<lparr>RequeueAfter = effectiveInterval r ces\<rparr>, None)"
proof -
  obtain c1 f0 p0 where l1:
    "entryLoop (removeEntry e (effectiveName ces)) (effectiveName ces)
       (getRemovedNamespaces nsList (ProvisionedNamespaces (ces_Status ces)))
       (record_request (ListNamespaces ls) c, [], []) = (c1, f0, p0)"
    using prod_cases3 by blast
  obtain c2 f p where l2:
    "entryLoop (syncEntry r e ces (effectiveName ces)) (effectiveName ces)
       (map (\<lambda>n. Name (ns_ObjectMeta n)) nsList) (c1, f0, []) = (c2, f, p)"
    using prod_cases3 by blast
  have rm: "removeOldNamespaces e (record_request (ListNamespaces ls) c) nsList (effectiveName ces)
              (ProvisionedNamespaces (ces_Status ces)) = (c1, f0)"
    unfolding removeOldNamespaces_def
    by (simp add: removeLoop_entryLoop [where prov="[]"] l1)
  have "reconcileBody r e c ces =
       (c2,
        ces\<lparr>ces_Status := \<lparr>FailedNamespaces = toNamespaceFailures f,
                            ProvisionedNamespaces = sort p,
                            Conditions = Some (NewClusterExternalSecretCondition f nsList)\<rparr>\<rparr>,
        \<lparr>RequeueAfter = effectiveInterval r ces\<rparr>, None)"
    by (simp add: reconcileBody_def assms rm reconcileNamespaces_entryLoop l2 Let_def
        SetClusterExternalSecretCondition_def)
  then show ?thesis using that l1 l2 by blast
qed

lemma Reconcile_fetched:
  assumes "getParentFault e req = None" and "storedParent c req = Some ces"
  shows "Reconcile r e c req =
     (case reconcileBody r e (record_request (GetClusterExternalSecret req) c) ces of
        (c1, ces', res, err') \<Rightarrow> (deferPatch e c1 ces' ces, res, err'))"
  using assms by (simp add: Reconcile_def IsNotFound_def Let_def)

lemma Reconcile_not_fetched:
  assumes "getParentFault e req \<noteq> None \<or> storedParent c req = None"
  shows "Reconcile r e c req =
     (record_request (GetClusterExternalSecret req) c, \<lparr>RequeueAfter = 0\<rparr>, None)"
  using assms by (auto simp: Reconcile_def IsNotFound_def Let_def split: option.splits)


lemma syncEntry_targets:
  "q \<in> set (snd (snd (syncEntry r e ces esName n x))) \<Longrightarrow> target q = Some (n, esName)"
  by (auto simp: syncEntry_def Let_def ObjectKeyFromObject_def named_def desiredMeta_def
      dest!: SetControllerReference_key
      split: option.splits sum.splits if_splits)

lemma removeEntry_targets:
  "q \<in> set (snd (snd (removeEntry e esName n x))) \<Longrightarrow> target q = Some (n, esName)"
  by (auto simp: removeEntry_def Let_def split: option.splits if_splits)

lemma deferPatch_parts:
  "secrets (deferPatch e c m p) = secrets c"
  "requests (deferPatch e c m p) = requests c @ [PatchStatus p m]"
  by (auto simp: deferPatch_def record_request_def Let_def split: option.splits)

lemma record_request_parts [simp]:
  "secrets (record_request q c) = secrets c"
  "parents (record_request q c) = parents c"
  "requests (record_request q c) = requests c @ [q]"
  by (simp_all add: record_request_def)

lemma reconcileBody_frame:
  assumes "reconcileBody r e c ces = (c2, ces2, res, err)"
  shows "parents c2 = parents c"
    and "snd k \<noteq> effectiveName ces \<Longrightarrow> secrets c2 k = secrets c k"
    and "\<exists>qs. requests c2 = requests c @ qs
           \<and> (\<forall>q\<in>set qs. (\<exists>ls. q = ListNamespaces ls)
                           \<or> (\<exists>n. target q = Some (n, effectiveName ces)))"
proof -
  let ?esName = "effectiveName ces"
  have "parents c2 = parents c
    \<and> (snd k \<noteq> ?esName \<longrightarrow> secrets c2 k = secrets c k)
    \<and> (\<exists>qs. requests c2 = requests c @ qs
           \<and> (\<forall>q\<in>set qs. (\<exists>ls. q = ListNamespaces ls)
                           \<or> (\<exists>n. target q = Some (n, ?esName))))"
  proof (cases "LabelSelectorAsSelector e (NamespaceSelector (ces_Spec ces))")
    case (Inl a)
    then show ?thesis using assms by (simp add: reconcileBody_selector_error)
  next
    case (Inr ls)
    show ?thesis
    proof (cases "ListResult e ls")
      case (Inl a)
      then show ?thesis using assms Inr by (auto simp: reconcileBody_list_error)
    next
      case (Inr nsList)
      obtain c1 f0 p0 c2' f p where
        l1: "entryLoop (removeEntry e ?esName) ?esName
           (getRemovedNamespaces nsList (ProvisionedNamespaces (ces_Status ces)))
           (record_request (ListNamespaces ls) c, [], []) = (c1, f0, p0)"
        and l2: "entryLoop (syncEntry r e ces ?esName) ?esName
           (map (\<lambda>n. Name (ns_ObjectMeta n)) nsList) (c1, f0, []) = (c2', f, p)"
        and rb: "reconcileBody r e c ces =
           (c2',
            ces\<lparr>ces_Status := \<lparr>FailedNamespaces = toNamespaceFailures f,
                            ProvisionedNamespaces = sort p,
                            Conditions = Some (NewClusterExternalSecretCondition f nsList)\<rparr>\<rparr>,
            \<lparr>RequeueAfter = effectiveInterval r ces\<rparr>, None)"
        using reconcileBody_loops [OF \<open>LabelSelectorAsSelector e (NamespaceSelector (ces_Spec ces)) = Inr ls\<close> Inr]
        by blast
      have c2: "c2' = c2" using rb assms by simp
      have par: "parents c2 = parents c"
        using entryLoop_parents [OF l1] entryLoop_parents [OF l2] c2 by simp
      have sec: "snd k \<noteq> ?esName \<longrightarrow> secrets c2 k = secrets c k"
        using entryLoop_secrets [OF removeEntry_stab1 l1, of k]
          entryLoop_secrets [OF syncEntry_stab1 l2, of k] c2 by simp
      obtain qs1 where q1: "requests c1 = requests c @ [ListNamespaces ls] @ qs1"
        and r1: "\<forall>q\<in>set qs1. \<exists>n\<in>set (getRemovedNamespaces nsList
                     (ProvisionedNamespaces (ces_Status ces))).
               q \<in> set (snd (snd (removeEntry e ?esName n
                     (secrets (record_request (ListNamespaces ls) c) (n, ?esName)))))
             \<or> q \<in> set (snd (snd (removeEntry e ?esName n (fst (removeEntry e ?esName n
                     (secrets (record_request (ListNamespaces ls) c) (n, ?esName)))))))"
        using entryLoop_requests [OF removeEntry_stab1 l1] by auto
      have t1: "\<forall>q\<in>set qs1. \<exists>n. target q = Some (n, ?esName)"
        using r1 removeEntry_targets by blast
      obtain qs2 where q2: "requests c2 = requests c1 @ qs2"
        and r2: "\<forall>q\<in>set qs2. \<exists>n\<in>set (map (\<lambda>n. Name (ns_ObjectMeta n)) nsList).
               q \<in> set (snd (snd (syncEntry r e ces ?esName n (secrets c1 (n, ?esName)))))
             \<or> q \<in> set (snd (snd (syncEntry r e ces ?esName n
                     (fst (syncEntry r e ces ?esName n (secrets c1 (n, ?esName)))))))"
        using entryLoop_requests [OF syncEntry_stab1 l2] c2 by auto
      have t2: "\<forall>q\<in>set qs2. \<exists>n. target q = Some (n, ?esName)"
        using r2 syncEntry_targets by blast
      have "requests c2 = requests c @ ([ListNamespaces ls] @ qs1 @ qs2)"
        using q1 q2 by simp
      moreover have "\<forall>q\<in>set ([ListNamespaces ls] @ qs1 @ qs2).
          (\<exists>ls. q = ListNamespaces ls) \<or> (\<exists>n. target q = Some (n, ?esName))"
        using t1 t2 by auto
      ultimately show ?thesis using par sec by blast
    qed
  qed
  then show "parents c2 = parents c"
    and "snd k \<noteq> effectiveName ces \<Longrightarrow> secrets c2 k = secrets c k"
    and "\<exists>qs. requests c2 = requests c @ qs
           \<and> (\<forall>q\<in>set qs. (\<exists>ls. q = ListNamespaces ls)
                           \<or> (\<exists>n. target q = Some (n, effectiveName ces)))"
    by blast+
qed

text \<open>
  C10. The effective child name is the parent's \<^verbatim>\<open>externalSecretName\<close> when that is
  not empty, else the parent's name. A cycle leaves every child stored under another
  name as it was, in every namespace, and each of its get, create, update and delete
  requests is about a child of the effective name.
\<close>

theorem name_scoping_frame:
  assumes "getParentFault e req = None"
    and "storedParent c req = Some ces"
    and "Reconcile r e c req = (c', res, err)"
  shows "effectiveName ces =
           (if ExternalSecretName (ces_Spec ces) = [] then Name (ces_ObjectMeta ces)
            else ExternalSecretName (ces_Spec ces))
       \<and> (\<forall>namespace name. name \<noteq> effectiveName ces \<longrightarrow>
             secrets c' (namespace, name) = secrets c (namespace, name))
       \<and> (\<exists>qs. requests c' = requests c @ qs
             \<and> (\<forall>q\<in>set qs. \<forall>k. target q = Some k \<longrightarrow> snd k = effectiveName ces))"
proof -
  obtain c2 ces2 res2 err2 where
    rb: "reconcileBody r e (record_request (GetClusterExternalSecret req) c) ces
           = (c2, ces2, res2, err2)"
    using prod_cases4 by blast
  have c': "c' = deferPatch e c2 ces2 ces"
    using assms(3) by (simp add: Reconcile_fetched [OF assms(1,2)] rb)
  obtain qs where qs: "requests c2 = requests c @ GetClusterExternalSecret req # qs"
    and tg: "\<forall>q\<in>set qs. (\<exists>ls. q = ListNamespaces ls)
                           \<or> (\<exists>n. target q = Some (n, effectiveName ces))"
    using reconcileBody_frame(3) [OF rb] by auto
  have "requests c' = requests c @ (GetClusterExternalSecret req # qs @ [PatchStatus ces ces2])"
    by (simp add: c' deferPatch_parts qs)
  moreover have "\<forall>q\<in>set (GetClusterExternalSecret req # qs @ [PatchStatus ces ces2]).
      \<forall>k. target q = Some k \<longrightarrow> snd k = effectiveName ces"
    using tg by auto
  moreover have "\<forall>namespace name. name \<noteq> effectiveName ces \<longrightarrow>
             secrets c' (namespace, name) = secrets c (namespace, name)"
    using reconcileBody_frame(2) [OF rb] by (simp add: c' deferPatch_parts)
  ultimately show ?thesis
    by (simp add: effectiveName_def Let_def)
qed


theorem name_scoping_frame_witness:
  "getParentFault env0 ''ces'' = None
   \<and> storedParent cluster_renamed ''ces'' = Some parent_renamed
   \<and> effectiveName parent_renamed = ''new''
   \<and> secrets (fst (Reconcile reconciler0 env0 cluster_renamed ''ces'')) (''a'', ''old'')
       = Some old_child
   \<and> secrets (fst (Reconcile reconciler0 env0 cluster_renamed ''ces'')) (''a'', ''new'')
       \<noteq> None"
proof -
  have h1: "getParentFault env0 ''ces'' = None"
    by (simp add: env0_def)
  have h2: "storedParent cluster_renamed ''ces'' = Some parent_renamed"
    by (simp add: storedParent_def input_defs cluster_renamed_def parent_renamed_def old_child_def owned_ref_def emptyMeta_def)
  have h3: "Reconcile reconciler0 env0 cluster_renamed ''ces''
      = (fst (Reconcile reconciler0 env0 cluster_renamed ''ces''),
         fst (snd (Reconcile reconciler0 env0 cluster_renamed ''ces'')),
         snd (snd (Reconcile reconciler0 env0 cluster_renamed ''ces'')))"
    by simp
  have nm: "effectiveName parent_renamed = ''new''"
    by (simp add: effectiveName_def input_defs cluster_renamed_def parent_renamed_def old_child_def owned_ref_def)
  have "secrets (fst (Reconcile reconciler0 env0 cluster_renamed ''ces'')) (''a'', ''old'')
       = secrets cluster_renamed (''a'', ''old'')"
  proof -
    have "\<forall>namespace name. name \<noteq> effectiveName parent_renamed \<longrightarrow>
        secrets (fst (Reconcile reconciler0 env0 cluster_renamed ''ces'')) (namespace, name)
          = secrets cluster_renamed (namespace, name)"
      using name_scoping_frame [OF h1 h2 h3] by blast
    then show ?thesis by (simp add: nm)
  qed
  moreover have "secrets (fst (Reconcile reconciler0 env0 cluster_renamed ''ces''))
       (''a'', ''new'') \<noteq> None"
    by (simp add: model_defs input_defs cluster_renamed_def parent_renamed_def old_child_def owned_ref_def Let_def)
  ultimately show ?thesis
    using h1 h2 nm by (simp add: cluster_renamed_def)
qed

text \<open>
  C3. When the conversion of the namespace selector fails, or the listing of the
  namespaces fails, the cycle returns that error, requeues after the parent's
  \<^verbatim>\<open>refreshInterval\<close> when set and the reconciler's default otherwise, leaves every child
  as it was and issues no request about a child at all.
\<close>

theorem fatal_error_aborts_cycle:
  assumes "getParentFault e req = None"
    and "storedParent c req = Some ces"
    and "LabelSelectorAsSelector e (NamespaceSelector (ces_Spec ces)) = Inl err
         \<or> (\<exists>ls. LabelSelectorAsSelector e (NamespaceSelector (ces_Spec ces)) = Inr ls
                \<and> ListResult e ls = Inl err)"
    and "Reconcile r e c req = (c', res, err')"
  shows "err' = Some err
     \<and> RequeueAfter res = (case RefreshInterval (ces_Spec ces) of
                             None \<Rightarrow> RequeueInterval r | Some d \<Rightarrow> d)
     \<and> secrets c' = secrets c
     \<and> (\<exists>qs. requests c' = requests c @ qs \<and> (\<forall>q\<in>set qs. \<not> isWrite q \<and> target q = None))"
  using assms(3)
proof
  assume sel: "LabelSelectorAsSelector e (NamespaceSelector (ces_Spec ces)) = Inl err"
  show ?thesis
    using assms(4)
    by (auto simp: Reconcile_fetched [OF assms(1,2)] reconcileBody_selector_error [OF sel]
        deferPatch_parts effectiveInterval_def)
next
  assume "\<exists>ls. LabelSelectorAsSelector e (NamespaceSelector (ces_Spec ces)) = Inr ls
                \<and> ListResult e ls = Inl err"
  then obtain ls where sel: "LabelSelectorAsSelector e (NamespaceSelector (ces_Spec ces)) = Inr ls"
    and lst: "ListResult e ls = Inl err"
    by blast
  show ?thesis
    using assms(4)
    by (auto simp: Reconcile_fetched [OF assms(1,2)] reconcileBody_list_error [OF sel lst]
        deferPatch_parts effectiveInterval_def)
qed

theorem fatal_error_aborts_cycle_witness:
  "snd (Reconcile reconciler0 env_badSelector cluster_foreign ''ces'')
     = (\<lparr>RequeueAfter = 60\<rparr>, Some (Failure ''invalid''))
   \<and> secrets (fst (Reconcile reconciler0 env_badSelector cluster_foreign ''ces''))
       = secrets cluster_foreign
   \<and> snd (Reconcile reconciler0 env_listError cluster_foreign ''ces'')
     = (\<lparr>RequeueAfter = 60\<rparr>, Some (Failure ''unavailable''))
   \<and> secrets (fst (Reconcile reconciler0 env_listError cluster_foreign ''ces''))
       = secrets cluster_foreign"
proof -
  have p: "storedParent cluster_foreign ''ces'' = Some parent0"
    by (simp add: storedParent_def input_defs emptyMeta_def)
  have a1: "getParentFault env_badSelector ''ces'' = None"
    and a2: "LabelSelectorAsSelector env_badSelector (NamespaceSelector (ces_Spec parent0))
               = Inl (Failure ''invalid'')"
    by (simp_all add: input_defs env_badSelector_def env_listError_def)
  have b1: "getParentFault env_listError ''ces'' = None"
    and b2: "\<exists>ls. LabelSelectorAsSelector env_listError (NamespaceSelector (ces_Spec parent0))
               = Inr ls \<and> ListResult env_listError ls = Inl (Failure ''unavailable'')"
    by (simp_all add: input_defs env_badSelector_def env_listError_def)
  have iv: "RefreshInterval (ces_Spec parent0) = Some 60"
    by (simp add: parent0_def)
  have a3: "Reconcile reconciler0 env_badSelector cluster_foreign ''ces''
      = (fst (Reconcile reconciler0 env_badSelector cluster_foreign ''ces''),
         fst (snd (Reconcile reconciler0 env_badSelector cluster_foreign ''ces'')),
         snd (snd (Reconcile reconciler0 env_badSelector cluster_foreign ''ces'')))"
    by simp
  have b3: "Reconcile reconciler0 env_listError cluster_foreign ''ces''
      = (fst (Reconcile reconciler0 env_listError cluster_foreign ''ces''),
         fst (snd (Reconcile reconciler0 env_listError cluster_foreign ''ces'')),
         snd (snd (Reconcile reconciler0 env_listError cluster_foreign ''ces'')))"
    by simp
  show ?thesis
    using fatal_error_aborts_cycle [OF a1 p disjI1 [OF a2] a3]
      fatal_error_aborts_cycle [OF b1 p disjI2 [OF b2] b3]
    by (simp add: iv prod_eq_iff)
qed

subsection \<open>The deferred status patch\<close>

lemma syncEntry_patchFault:
  "syncEntry r (e\<lparr>patchFault := pf\<rparr>) ces esName = syncEntry r e ces esName"
  by (intro ext) (simp add: syncEntry_def Let_def cong: option.case_cong sum.case_cong if_cong)

lemma removeEntry_patchFault:
  "removeEntry (e\<lparr>patchFault := pf\<rparr>) esName = removeEntry e esName"
  by (intro ext) (simp add: removeEntry_def Let_def cong: option.case_cong if_cong)

lemma removeOldNamespaces_patchFault:
  "removeOldNamespaces (e\<lparr>patchFault := pf\<rparr>) c nsList esName prev
     = removeOldNamespaces e c nsList esName prev"
  by (simp add: removeOldNamespaces_def removeLoop_entryLoop [where prov = "[]"]
      removeEntry_patchFault)

lemma reconcileNamespaces_patchFault:
  "reconcileNamespaces r (e\<lparr>patchFault := pf\<rparr>) ces esName nsList st
     = reconcileNamespaces r e ces esName nsList st"
  by (simp add: reconcileNamespaces_entryLoop syncEntry_patchFault)

lemma reconcileBody_patchFault:
  "reconcileBody r (e\<lparr>patchFault := pf\<rparr>) c ces = reconcileBody r e c ces"
  by (simp add: reconcileBody_def removeOldNamespaces_patchFault reconcileNamespaces_patchFault
      Let_def cong: sum.case_cong prod.case_cong)

lemma statusPatches_append [simp]:
  "statusPatches (qs @ qs') = statusPatches qs @ statusPatches qs'"
  by (simp add: statusPatches_def)

lemma statusPatches_none:
  "\<forall>q\<in>set qs. (\<exists>ls. q = ListNamespaces ls) \<or> (\<exists>n. target q = Some (n, name))
     \<Longrightarrow> statusPatches qs = []"
  by (induction qs) (auto simp: statusPatches_def split: request.splits)

lemma reconcileBody_statusPatches:
  assumes "reconcileBody r e c ces = (c2, ces2, res, err)"
  shows "statusPatches (requests c2) = statusPatches (requests c)"
proof -
  obtain qs where "requests c2 = requests c @ qs"
    and "\<forall>q\<in>set qs. (\<exists>ls. q = ListNamespaces ls) \<or> (\<exists>n. target q = Some (n, effectiveName ces))"
    using reconcileBody_frame(3) [OF assms] by blast
  then show ?thesis by (simp add: statusPatches_none)
qed

text \<open>
  C7, as the claim states it, fails: when the get of the parent fails, the cycle ends
  without any status patch.
\<close>

theorem status_patch_counterexample:
  "statusPatches (requests (fst (Reconcile reconciler0 env_getError cluster_foreign ''ces''))) = []
   \<and> storedParent cluster_foreign ''ces'' = Some parent0"
  by (simp add: model_defs input_defs env_getError_def Let_def statusPatches_def)

text \<open>
  C7, amended. On every exit path after the parent has been fetched, the early returns
  on a selector or list error included, exactly one status patch is requested, against
  the parent as it was fetched; when the parent is not fetched there is no patch. The
  result and the error returned do not depend on whether the patch fails.
\<close>

theorem status_patch_once:
  assumes "Reconcile r e c req = (c', res, err)"
  shows "(\<forall>ces. getParentFault e req = None \<and> storedParent c req = Some ces \<longrightarrow>
            (\<exists>m. statusPatches (requests c') = statusPatches (requests c) @ [(ces, m)]))
       \<and> (getParentFault e req \<noteq> None \<or> storedParent c req = None \<longrightarrow>
            statusPatches (requests c') = statusPatches (requests c))
       \<and> (\<forall>pf. snd (Reconcile r (e\<lparr>patchFault := pf\<rparr>) c req) = (res, err))"
proof (cases "getParentFault e req = None \<and> storedParent c req \<noteq> None")
  case True
  then obtain ces where f: "getParentFault e req = None" and p: "storedParent c req = Some ces"
    by auto
  obtain c2 ces2 res2 err2 where
    rb: "reconcileBody r e (record_request (GetClusterExternalSecret req) c) ces
           = (c2, ces2, res2, err2)"
    using prod_cases4 by blast
  have c': "c' = deferPatch e c2 ces2 ces" and res: "res = res2" and err: "err = err2"
    using assms by (simp_all add: Reconcile_fetched [OF f p] rb)
  have "statusPatches (requests c') = statusPatches (requests c) @ [(ces, ces2)]"
    using reconcileBody_statusPatches [OF rb]
    by (simp add: c' deferPatch_parts) (simp add: statusPatches_def)
  moreover have "\<forall>pf. snd (Reconcile r (e\<lparr>patchFault := pf\<rparr>) c req) = (res, err)"
  proof
    fix pf
    have f': "getParentFault (e\<lparr>patchFault := pf\<rparr>) req = None" using f by simp
    show "snd (Reconcile r (e\<lparr>patchFault := pf\<rparr>) c req) = (res, err)"
      by (simp add: Reconcile_fetched [OF f' p] reconcileBody_patchFault rb res err)
  qed
  ultimately show ?thesis using f p by simp
next
  case False
  then have nf: "getParentFault e req \<noteq> None \<or> storedParent c req = None" by auto
  have "\<forall>pf. snd (Reconcile r (e\<lparr>patchFault := pf\<rparr>) c req) = (res, err)"
  proof
    fix pf
    have nf': "getParentFault (e\<lparr>patchFault := pf\<rparr>) req \<noteq> None \<or> storedParent c req = None"
      using nf by simp
    show "snd (Reconcile r (e\<lparr>patchFault := pf\<rparr>) c req) = (res, err)"
      using assms by (simp add: Reconcile_not_fetched [OF nf'] Reconcile_not_fetched [OF nf])
  qed
  moreover have "statusPatches (requests c') = statusPatches (requests c)"
    using assms by (auto simp: Reconcile_not_fetched [OF nf] statusPatches_def)
  ultimately show ?thesis using nf by auto
qed

theorem status_patch_once_witness:
  "storedParent cluster_foreign ''ces'' = Some parent0
   \<and> (\<exists>m. statusPatches (requests (fst (Reconcile reconciler0 env_badSelector cluster_foreign ''ces'')))
          = [(parent0, m)])
   \<and> snd (Reconcile reconciler0 env_patchError cluster_foreign ''ces'')
       = snd (Reconcile reconciler0 env0 cluster_foreign ''ces'')
   \<and> statusPatches (requests (fst (Reconcile reconciler0 env_getError cluster_foreign ''ces''))) = []"
proof -
  have p: "storedParent cluster_foreign ''ces'' = Some parent0"
    by (simp add: storedParent_def input_defs emptyMeta_def)
  have a1: "getParentFault env_badSelector ''ces'' = None"
    and a2: "getParentFault env_getError ''ces'' \<noteq> None"
    and a0: "statusPatches (requests cluster_foreign) = []"
    by (simp_all add: input_defs env_badSelector_def env_getError_def statusPatches_def)
  have a3: "Reconcile reconciler0 env_badSelector cluster_foreign ''ces''
      = (fst (Reconcile reconciler0 env_badSelector cluster_foreign ''ces''),
         fst (snd (Reconcile reconciler0 env_badSelector cluster_foreign ''ces'')),
         snd (snd (Reconcile reconciler0 env_badSelector cluster_foreign ''ces'')))"
    by simp
  have b3: "Reconcile reconciler0 env0 cluster_foreign ''ces''
      = (fst (Reconcile reconciler0 env0 cluster_foreign ''ces''),
         fst (snd (Reconcile reconciler0 env0 cluster_foreign ''ces'')),
         snd (snd (Reconcile reconciler0 env0 cluster_foreign ''ces'')))"
    by simp
  have c3: "Reconcile reconciler0 env_getError cluster_foreign ''ces''
      = (fst (Reconcile reconciler0 env_getError cluster_foreign ''ces''),
         fst (snd (Reconcile reconciler0 env_getError cluster_foreign ''ces'')),
         snd (snd (Reconcile reconciler0 env_getError cluster_foreign ''ces'')))"
    by simp
  have "\<exists>m. statusPatches (requests (fst (Reconcile reconciler0 env_badSelector cluster_foreign ''ces'')))
          = [(parent0, m)]"
    using status_patch_once [OF a3] a1 p a0 by simp
  moreover have "snd (Reconcile reconciler0 (env0\<lparr>patchFault := (\<lambda>name. Some ''conflict'')\<rparr>)
        cluster_foreign ''ces'') = snd (Reconcile reconciler0 env0 cluster_foreign ''ces'')"
    using status_patch_once [OF b3] by simp
  moreover have "statusPatches (requests (fst (Reconcile reconciler0 env_getError cluster_foreign ''ces''))) = []"
    using status_patch_once [OF c3] a2 a0 by simp
  ultimately show ?thesis using p by (simp add: env_patchError_def)
qed

subsection \<open>What a full cycle computes\<close>

lemma sort_key_unique:
  assumes "mset xs = mset ys" and "distinct (map f xs)"
  shows "sort_key f xs = sort_key f ys"
proof -
  have sxy: "set xs = set ys" using assms(1) by (rule mset_eq_setD)
  have dy: "distinct (map f ys)"
    using assms by (metis distinct_map mset_eq_imp_distinct_iff sxy)
  have inj: "inj_on f (set xs)" using assms(2) by (simp add: distinct_map)
  have "map f (sort_key f xs) = map f (sort_key f ys)"
  proof (rule sorted_distinct_set_unique)
    show "sorted (map f (sort_key f xs))" by simp
    show "sorted (map f (sort_key f ys))" by simp
    show "distinct (map f (sort_key f xs))"
      using assms(2) by (simp add: distinct_map)
    show "distinct (map f (sort_key f ys))"
      using dy by (simp add: distinct_map)
    show "set (map f (sort_key f xs)) = set (map f (sort_key f ys))"
      using sxy by simp
  qed
  moreover have "inj_on f (set (sort_key f xs) \<union> set (sort_key f ys))"
    using inj sxy by simp
  ultimately show ?thesis by (simp add: inj_on_map_eq_map)
qed

lemma toNamespaceFailures_unique:
  assumes "distinct (map fst f)" and "distinct (map fst g)" and "map_of f = map_of g"
  shows "toNamespaceFailures f = toNamespaceFailures g" and "length f = length g"
proof -
  have sfg: "set f = set g"
    using assms by (simp add: map_of_inject_set)
  have df: "distinct f" and dg: "distinct g"
    using assms(1,2) by (simp_all add: distinct_map)
  have m: "mset f = mset g"
    using sfg df dg by (simp add: set_eq_iff_mset_eq_distinct)
  let ?mk = "\<lambda>(namespace, message). \<lparr>nf_Namespace = namespace, nf_Reason = message\<rparr>"
  have key: "map nf_Namespace (map ?mk f) = map fst f"
    by (induction f) auto
  have "mset (map ?mk f) = mset (map ?mk g)" using m by simp
  moreover have "distinct (map nf_Namespace (map ?mk f))"
    unfolding key using assms(1) .
  ultimately show "toNamespaceFailures f = toNamespaceFailures g"
    unfolding toNamespaceFailures_def by (rule sort_key_unique)
  show "length f = length g" using m by (metis size_mset)
qed

lemma toNamespaceFailures_names:
  "sorted (map nf_Namespace (toNamespaceFailures f))"
  "set (map nf_Namespace (toNamespaceFailures f)) = fst ` set f"
proof -
  let ?mk = "\<lambda>(namespace, message). \<lparr>nf_Namespace = namespace, nf_Reason = message\<rparr>"
  have key: "map nf_Namespace (map ?mk f) = map fst f"
    by (induction f) auto
  show "sorted (map nf_Namespace (toNamespaceFailures f))"
    by (simp add: toNamespaceFailures_def)
  have "set (map nf_Namespace (toNamespaceFailures f)) = set (map nf_Namespace (map ?mk f))"
    unfolding toNamespaceFailures_def set_map set_sort ..
  then show "set (map nf_Namespace (toNamespaceFailures f)) = fst ` set f"
    unfolding key by simp
qed

lemma reconcileBody_result:
  assumes sel: "LabelSelectorAsSelector e (NamespaceSelector (ces_Spec ces)) = Inr ls"
    and lst: "ListResult e ls = Inr nsList"
    and rb: "reconcileBody r e c ces = (c2, ces2, res, err)"
  shows "\<exists>f. distinct (map fst f)
     \<and> (\<forall>n. map_of f n =
           (if n \<in> (\<lambda>n. Name (ns_ObjectMeta n)) ` set nsList
            then fst (snd (syncEntry r e ces (effectiveName ces) n
                             (secrets c (n, effectiveName ces))))
            else if n \<in> set (ProvisionedNamespaces (ces_Status ces))
            then fst (snd (removeEntry e (effectiveName ces) n
                             (secrets c (n, effectiveName ces))))
            else None))
     \<and> ces2 = ces\<lparr>ces_Status :=
                \<lparr>FailedNamespaces = toNamespaceFailures f,
                 ProvisionedNamespaces =
                   sort (filter (\<lambda>n. fst (snd (syncEntry r e ces (effectiveName ces) n
                                      (secrets c (n, effectiveName ces)))) = None)
                           (map (\<lambda>n. Name (ns_ObjectMeta n)) nsList)),
                 Conditions = Some (NewClusterExternalSecretCondition f nsList)\<rparr>\<rparr>"
    and "secrets c2 k =
           (if snd k = effectiveName ces \<and> fst k \<in> (\<lambda>n. Name (ns_ObjectMeta n)) ` set nsList
            then fst (syncEntry r e ces (effectiveName ces) (fst k) (secrets c k))
            else if snd k = effectiveName ces
                    \<and> fst k \<in> set (ProvisionedNamespaces (ces_Status ces))
            then fst (removeEntry e (effectiveName ces) (fst k) (secrets c k))
            else secrets c k)"
    and "res = \<lparr>RequeueAfter = effectiveInterval r ces\<rparr>" and "err = None"
proof -
  let ?esName = "effectiveName ces"
  let ?names = "map (\<lambda>n. Name (ns_ObjectMeta n)) nsList"
  let ?removed = "getRemovedNamespaces nsList (ProvisionedNamespaces (ces_Status ces))"
  let ?S = "syncEntry r e ces ?esName"
  let ?T = "removeEntry e ?esName"
  obtain c1 f0 p0 c2' f p where
    l1: "entryLoop ?T ?esName ?removed (record_request (ListNamespaces ls) c, [], []) = (c1, f0, p0)"
    and l2: "entryLoop ?S ?esName ?names (c1, f0, []) = (c2', f, p)"
    and rb': "reconcileBody r e c ces =
       (c2',
        ces\<lparr>ces_Status := \<lparr>FailedNamespaces = toNamespaceFailures f,
                        ProvisionedNamespaces = sort p,
                        Conditions = Some (NewClusterExternalSecretCondition f nsList)\<rparr>\<rparr>,
        \<lparr>RequeueAfter = effectiveInterval r ces\<rparr>, None)"
    using reconcileBody_loops [OF sel lst] by blast
  have c2: "c2' = c2" using rb rb' by simp
  have rem: "\<And>n. n \<in> set ?removed \<longleftrightarrow>
      n \<in> set (ProvisionedNamespaces (ces_Status ces)) \<and> n \<notin> set ?names"
    by (auto simp: getRemovedNamespaces_filter)
  have s1: "\<And>k. secrets c1 k = (if snd k = ?esName \<and> fst k \<in> set ?removed
                     then fst (?T (fst k) (secrets c k)) else secrets c k)"
    using entryLoop_secrets [OF removeEntry_stab1 l1] by simp
  have s2: "\<And>k. secrets c2 k = (if snd k = ?esName \<and> fst k \<in> set ?names
                     then fst (?S (fst k) (secrets c1 k)) else secrets c1 k)"
    using entryLoop_secrets [OF syncEntry_stab1 l2] c2 by simp
  show "secrets c2 k =
           (if snd k = effectiveName ces \<and> fst k \<in> (\<lambda>n. Name (ns_ObjectMeta n)) ` set nsList
            then fst (syncEntry r e ces (effectiveName ces) (fst k) (secrets c k))
            else if snd k = effectiveName ces
                    \<and> fst k \<in> set (ProvisionedNamespaces (ces_Status ces))
            then fst (removeEntry e (effectiveName ces) (fst k) (secrets c k))
            else secrets c k)"
    unfolding s2 s1 rem by auto
  have same: "\<And>n. n \<in> set ?names \<Longrightarrow> secrets c1 (n, ?esName) = secrets c (n, ?esName)"
    unfolding s1 rem by simp
  have f0: "\<And>n. map_of f0 n = (if n \<in> set ?removed
                    then fst (snd (?T n (secrets c (n, ?esName)))) else None)"
    using entryLoop_failed [OF removeEntry_stab2 l1] by (auto split: option.splits)
  have f: "\<And>n. map_of f n = (if n \<in> set ?names
                    then (case fst (snd (?S n (secrets c1 (n, ?esName)))) of
                            None \<Rightarrow> map_of f0 n | Some m \<Rightarrow> Some m)
                    else map_of f0 n)"
    using entryLoop_failed [OF syncEntry_stab2 l2] .
  have mf: "\<forall>n. map_of f n =
           (if n \<in> (\<lambda>n. Name (ns_ObjectMeta n)) ` set nsList
            then fst (snd (?S n (secrets c (n, ?esName))))
            else if n \<in> set (ProvisionedNamespaces (ces_Status ces))
            then fst (snd (?T n (secrets c (n, ?esName))))
            else None)"
    unfolding f f0 rem using same by (auto split: option.splits)
  have d0: "distinct (map fst f0)"
    using entryLoop_distinct [OF l1] by simp
  have df: "distinct (map fst f)"
    using entryLoop_distinct [OF l2 d0] .
  have p: "p = filter (\<lambda>n. fst (snd (?S n (secrets c (n, ?esName)))) = None) ?names"
  proof -
    have "filter (\<lambda>n. fst (snd (?S n (secrets c1 (n, ?esName)))) = None) ?names
        = filter (\<lambda>n. fst (snd (?S n (secrets c (n, ?esName)))) = None) ?names"
      by (rule filter_cong [OF refl]) (simp add: same)
    then show ?thesis using entryLoop_prov [OF syncEntry_stab2 l2] by simp
  qed
  show "res = \<lparr>RequeueAfter = effectiveInterval r ces\<rparr>" and "err = None"
    using rb rb' by simp_all
  have "ces2 = ces\<lparr>ces_Status :=
                \<lparr>FailedNamespaces = toNamespaceFailures f,
                 ProvisionedNamespaces =
                   sort (filter (\<lambda>n. fst (snd (?S n (secrets c (n, ?esName)))) = None) ?names),
                 Conditions = Some (NewClusterExternalSecretCondition f nsList)\<rparr>\<rparr>"
    using rb rb' p by simp
  then show "\<exists>f. distinct (map fst f)
     \<and> (\<forall>n. map_of f n =
           (if n \<in> (\<lambda>n. Name (ns_ObjectMeta n)) ` set nsList
            then fst (snd (syncEntry r e ces (effectiveName ces) n
                             (secrets c (n, effectiveName ces))))
            else if n \<in> set (ProvisionedNamespaces (ces_Status ces))
            then fst (snd (removeEntry e (effectiveName ces) n
                             (secrets c (n, effectiveName ces))))
            else None))
     \<and> ces2 = ces\<lparr>ces_Status :=
                \<lparr>FailedNamespaces = toNamespaceFailures f,
                 ProvisionedNamespaces =
                   sort (filter (\<lambda>n. fst (snd (syncEntry r e ces (effectiveName ces) n
                                      (secrets c (n, effectiveName ces)))) = None)
                           (map (\<lambda>n. Name (ns_ObjectMeta n)) nsList)),
                 Conditions = Some (NewClusterExternalSecretCondition f nsList)\<rparr>\<rparr>"
    using df mf by blast
qed



lemma patchedStatus_deferPatch:
  "patchedStatus (deferPatch e c m p) = Some (ces_Status m)"
  by (simp add: patchedStatus_def deferPatch_parts) (simp add: statusPatches_def)

lemma Reconcile_cycle:
  assumes "getParentFault e req = None" and "storedParent c req = Some ces"
    and "Reconcile r e c req = (c', res, err)"
  obtains c2 ces2 where
    "reconcileBody r e (record_request (GetClusterExternalSecret req) c) ces = (c2, ces2, res, err)"
    "c' = deferPatch e c2 ces2 ces"
proof -
  obtain c2 ces2 res2 err2 where
    rb: "reconcileBody r e (record_request (GetClusterExternalSecret req) c) ces
           = (c2, ces2, res2, err2)"
    using prod_cases4 by blast
  have "c' = deferPatch e c2 ces2 ces" "res2 = res" "err2 = err"
    using assms(3) by (simp_all add: Reconcile_fetched [OF assms(1,2)] rb)
  then show ?thesis using that rb by blast
qed




subsection \<open>The order of the matched namespaces\<close>

lemma syncEntry_ListResult:
  "syncEntry r (e\<lparr>ListResult := L\<rparr>) ces esName = syncEntry r e ces esName"
  by (intro ext) (simp add: syncEntry_def Let_def cong: option.case_cong sum.case_cong if_cong)

lemma removeEntry_ListResult:
  "removeEntry (e\<lparr>ListResult := L\<rparr>) esName = removeEntry e esName"
  by (intro ext) (simp add: removeEntry_def Let_def cong: option.case_cong if_cong)

lemma deferPatch_ListResult:
  "deferPatch (e\<lparr>ListResult := L\<rparr>) c m p = deferPatch e c m p"
  by (simp add: deferPatch_def)

lemma deferPatch_parents:
  "parents c = parents d \<Longrightarrow> parents (deferPatch e c m p) = parents (deferPatch e d m p)"
  by (simp add: deferPatch_def record_request_def Let_def split: option.splits)

lemma sort_mset_eq: "mset xs = mset ys \<Longrightarrow> sort xs = sort ys"
  by (metis mset_sort properties_for_sort sorted_sort)


lemma toNamespaceFailures_distinct:
  assumes "distinct (map fst f)"
  shows "distinct (map nf_Namespace (toNamespaceFailures f))"
proof -
  let ?mk = "\<lambda>(namespace, message). \<lparr>nf_Namespace = namespace, nf_Reason = message\<rparr>"
  have key: "map nf_Namespace (map ?mk f) = map fst f"
    by (induction f) auto
  have "mset (toNamespaceFailures f) = mset (map ?mk f)"
    unfolding toNamespaceFailures_def by (rule mset_sort)
  then have "mset (map nf_Namespace (toNamespaceFailures f)) = mset (map nf_Namespace (map ?mk f))"
    by (simp only: mset_map)
  then have "distinct (map nf_Namespace (toNamespaceFailures f))
      \<longleftrightarrow> distinct (map nf_Namespace (map ?mk f))"
    by (rule mset_eq_imp_distinct_iff)
  then show ?thesis unfolding key using assms by simp
qed

text \<open>
  C8. Two cycles that start on the same cluster and differ only in the order in which
  the matched namespaces are listed, hence processed, send the same status and leave
  the same children and the same stored parents; the provisioned namespaces of that
  status are sorted, and its failed namespaces are sorted by namespace name, without
  repetition.
\<close>

theorem status_deterministic:
  assumes "getParentFault e req = None"
    and "storedParent c req = Some ces"
    and "LabelSelectorAsSelector e (NamespaceSelector (ces_Spec ces)) = Inr ls"
    and "ListResult e ls = Inr nsList"
    and "L ls = Inr nsList'"
    and "mset nsList' = mset nsList"
    and "Reconcile r e c req = (c1, res1, err1)"
    and "Reconcile r (e\<lparr>ListResult := L\<rparr>) c req = (c2, res2, err2)"
  shows "\<exists>st. patchedStatus c1 = Some st \<and> patchedStatus c2 = Some st
     \<and> sorted (ProvisionedNamespaces st)
     \<and> sorted (map nf_Namespace (FailedNamespaces st))
     \<and> distinct (map nf_Namespace (FailedNamespaces st))
     \<and> secrets c2 = secrets c1 \<and> parents c2 = parents c1"
proof -
  let ?e' = "e\<lparr>ListResult := L\<rparr>"
  let ?c0 = "record_request (GetClusterExternalSecret req) c"
  let ?esName = "effectiveName ces"
  let ?nm = "\<lambda>n. Name (ns_ObjectMeta n)"
  have f': "getParentFault ?e' req = None" using assms(1) by simp
  have sel': "LabelSelectorAsSelector ?e' (NamespaceSelector (ces_Spec ces)) = Inr ls"
    using assms(3) by simp
  have lst': "ListResult ?e' ls = Inr nsList'" using assms(5) by simp
  obtain b1 m1 where
    rb1: "reconcileBody r e ?c0 ces = (b1, m1, res1, err1)"
    and c1: "c1 = deferPatch e b1 m1 ces"
    using Reconcile_cycle [OF assms(1,2,7)] by blast
  obtain b2 m2 where
    rb2: "reconcileBody r ?e' ?c0 ces = (b2, m2, res2, err2)"
    and c2: "c2 = deferPatch ?e' b2 m2 ces"
    using Reconcile_cycle [OF f' assms(2,8)] by blast
  let ?ok = "\<lambda>n. fst (snd (syncEntry r e ces ?esName n (secrets ?c0 (n, ?esName)))) = None"
  let ?reason = "\<lambda>names n.
           (if n \<in> names
            then fst (snd (syncEntry r e ces ?esName n (secrets ?c0 (n, ?esName))))
            else if n \<in> set (ProvisionedNamespaces (ces_Status ces))
            then fst (snd (removeEntry e ?esName n (secrets ?c0 (n, ?esName))))
            else None)"
  obtain f where df: "distinct (map fst f)"
    and mf: "\<forall>n. map_of f n = ?reason (?nm ` set nsList) n"
    and m1: "m1 = ces\<lparr>ces_Status :=
                \<lparr>FailedNamespaces = toNamespaceFailures f,
                 ProvisionedNamespaces = sort (filter ?ok (map ?nm nsList)),
                 Conditions = Some (NewClusterExternalSecretCondition f nsList)\<rparr>\<rparr>"
    using reconcileBody_result(1) [OF assms(3,4) rb1] by blast
  obtain g where dg: "distinct (map fst g)"
    and mg: "\<forall>n. map_of g n = ?reason (?nm ` set nsList') n"
    and m2: "m2 = ces\<lparr>ces_Status :=
                \<lparr>FailedNamespaces = toNamespaceFailures g,
                 ProvisionedNamespaces = sort (filter ?ok (map ?nm nsList')),
                 Conditions = Some (NewClusterExternalSecretCondition g nsList')\<rparr>\<rparr>"
    using reconcileBody_result(1) [OF sel' lst' rb2,
        unfolded syncEntry_ListResult removeEntry_ListResult]
    by blast
  have sets: "set nsList' = set nsList" using assms(6) by (rule mset_eq_setD)
  have len: "length nsList' = length nsList" using assms(6) by (rule mset_eq_length)
  have "map_of f = map_of g" using mf mg sets by auto
  then have tf: "toNamespaceFailures f = toNamespaceFailures g" and lf: "length f = length g"
    using toNamespaceFailures_unique [OF df dg] by simp_all
  have "mset (filter ?ok (map ?nm nsList')) = mset (filter ?ok (map ?nm nsList))"
    by (simp add: assms(6))
  then have pr: "sort (filter ?ok (map ?nm nsList')) = sort (filter ?ok (map ?nm nsList))"
    by (rule sort_mset_eq)
  have m: "m2 = m1"
    using pr by (simp add: m1 m2 tf NewClusterExternalSecretCondition_def lf len)
  have sec: "secrets b2 = secrets b1"
  proof (rule ext)
    fix k show "secrets b2 k = secrets b1 k"
      unfolding reconcileBody_result(2) [OF assms(3,4) rb1, of k]
        reconcileBody_result(2) [OF sel' lst' rb2, of k]
      by (simp add: sets syncEntry_ListResult removeEntry_ListResult)
  qed
  have par: "parents b2 = parents b1"
    using reconcileBody_frame(1) [OF rb1] reconcileBody_frame(1) [OF rb2] by simp
  have dn: "distinct (map nf_Namespace (toNamespaceFailures f))"
    using df by (rule toNamespaceFailures_distinct)
  have "patchedStatus c1 = Some (ces_Status m1)" "patchedStatus c2 = Some (ces_Status m1)"
    by (simp_all add: c1 c2 m patchedStatus_deferPatch)
  moreover have "sorted (ProvisionedNamespaces (ces_Status m1))"
    by (simp add: m1)
  moreover have "sorted (map nf_Namespace (FailedNamespaces (ces_Status m1)))"
    using toNamespaceFailures_names(1) [of f] by (simp add: m1)
  moreover have "distinct (map nf_Namespace (FailedNamespaces (ces_Status m1)))"
    using dn by (simp add: m1)
  moreover have "secrets c2 = secrets c1"
    by (simp add: c1 c2 deferPatch_parts sec)
  moreover have "parents c2 = parents c1"
    unfolding c1 c2 m deferPatch_ListResult using par by (rule deferPatch_parents)
  ultimately show ?thesis by blast
qed


theorem status_deterministic_witness:
  "patchedStatus (fst (Reconcile reconciler0 env_ba cluster_unowned ''ces''))
     = patchedStatus (fst (Reconcile reconciler0 env_ab cluster_unowned ''ces''))
   \<and> patchedStatus (fst (Reconcile reconciler0 env_ab cluster_unowned ''ces'')) \<noteq> None
   \<and> mset [namespace_b, namespace_a] = mset [namespace_a, namespace_b]
   \<and> [namespace_b, namespace_a] \<noteq> [namespace_a, namespace_b]"
proof -
  have h1: "getParentFault env_ab ''ces'' = None"
    by (simp add: env_ab_def env0_def)
  have h2: "storedParent cluster_unowned ''ces'' = Some parent0"
    by (simp add: storedParent_def cluster_unowned_def parent0_def emptyMeta_def)
  have h3: "LabelSelectorAsSelector env_ab (NamespaceSelector (ces_Spec parent0)) = Inr ''env=prod''"
    by (simp add: env_ab_def env0_def parent0_def)
  have h4: "ListResult env_ab ''env=prod'' = Inr [namespace_a, namespace_b]"
    by (simp add: env_ab_def env0_def)
  have h5: "(\<lambda>selector. Inr [namespace_b, namespace_a]) ''env=prod''
              = (Inr [namespace_b, namespace_a] :: error + namespace list)"
    by simp
  have h6: "mset [namespace_b, namespace_a] = mset [namespace_a, namespace_b]"
    by (simp add: add_mset_commute)
  have e: "env_ab\<lparr>ListResult := (\<lambda>selector. Inr [namespace_b, namespace_a])\<rparr> = env_ba"
    by (simp add: env_ab_def env_ba_def)
  have h7: "Reconcile reconciler0 env_ab cluster_unowned ''ces''
      = (fst (Reconcile reconciler0 env_ab cluster_unowned ''ces''),
         fst (snd (Reconcile reconciler0 env_ab cluster_unowned ''ces'')),
         snd (snd (Reconcile reconciler0 env_ab cluster_unowned ''ces'')))"
    by simp
  have h8: "Reconcile reconciler0
        (env_ab\<lparr>ListResult := (\<lambda>selector. Inr [namespace_b, namespace_a])\<rparr>)
        cluster_unowned ''ces''
      = (fst (Reconcile reconciler0 env_ba cluster_unowned ''ces''),
         fst (snd (Reconcile reconciler0 env_ba cluster_unowned ''ces'')),
         snd (snd (Reconcile reconciler0 env_ba cluster_unowned ''ces'')))"
    by (simp add: e)
  have "\<exists>st. patchedStatus (fst (Reconcile reconciler0 env_ab cluster_unowned ''ces'')) = Some st
      \<and> patchedStatus (fst (Reconcile reconciler0 env_ba cluster_unowned ''ces'')) = Some st"
    using status_deterministic [OF h1 h2 h3 h4 h5 h6 h7 h8] by blast
  moreover have "[namespace_b, namespace_a] \<noteq> [namespace_a, namespace_b]"
    by (simp add: namespace_a_def namespace_b_def emptyMeta_def)
  ultimately show ?thesis using h6 by auto
qed

subsection \<open>Children that are not the parent's\<close>

lemma SetControllerReference_other:
  "controlledByAnother r ces m \<Longrightarrow> \<exists>err. SetControllerReference ces m (Scheme r) = Inl err"
  by (auto simp: controlledByAnother_def SetControllerReference_def referSameObject_def Let_def
      split: option.splits prod.splits)

lemma GetControllerOf_named:
  "GetControllerOf (es_ObjectMeta (named n m es)) = GetControllerOf (es_ObjectMeta es)"
  by (simp add: GetControllerOf_def named_def)

lemma controlledByAnother_named:
  "controlledByAnother r ces (es_ObjectMeta (named n m es))
     = controlledByAnother r ces (es_ObjectMeta es)"
  by (simp add: controlledByAnother_def GetControllerOf_named)

lemma controlledByAnother_refs:
  "controlledByAnother r ces m \<Longrightarrow> OwnerReferences m \<noteq> []"
  by (auto simp: controlledByAnother_def GetControllerOf_def split: option.splits)

lemma syncEntry_keeps:
  assumes "OwnerReferences (es_ObjectMeta es) = [] \<or> controlledByAnother r ces (es_ObjectMeta es)"
  shows "syncEntry r e ces esName n (Some es) =
     (Some es,
      Some (if getMetadataFault e (n, esName) \<noteq> None then errGetExistingES
            else if OwnerReferences (es_ObjectMeta es) = [] then errSecretAlreadyExists
            else errSetCtrlReference),
      [GetMetadata n esName])"
  using assms
proof
  assume "OwnerReferences (es_ObjectMeta es) = []"
  then show ?thesis
    by (auto simp: syncEntry_def Let_def named_def split: option.splits)
next
  assume other: "controlledByAnother r ces (es_ObjectMeta es)"
  obtain err where
    "SetControllerReference ces (es_ObjectMeta (named n esName es)) (Scheme r) = Inl err"
    using SetControllerReference_other [of r ces "es_ObjectMeta (named n esName es)"] other
    by (auto simp: controlledByAnother_named)
  moreover have "OwnerReferences (es_ObjectMeta (named n esName es)) \<noteq> []"
    using controlledByAnother_refs [OF other] by (simp add: named_def)
  moreover have "OwnerReferences (es_ObjectMeta es) \<noteq> []"
    using controlledByAnother_refs [OF other] .
  ultimately show ?thesis
    by (simp add: syncEntry_def Let_def split: option.splits)
qed

lemma removeEntry_keeps:
  assumes "OwnerReferences (es_ObjectMeta es) = []"
  shows "removeEntry e esName n (Some es) =
     (Some es,
      Some (if getMetadataFault e (n, esName) \<noteq> None then errGetExistingES
            else errSecretAlreadyExists),
      [GetMetadata n esName])"
  using assms by (auto simp: removeEntry_def Let_def split: option.splits)

lemma reconcileBody_requests:
  assumes sel: "LabelSelectorAsSelector e (NamespaceSelector (ces_Spec ces)) = Inr ls"
    and lst: "ListResult e ls = Inr nsList"
    and rb: "reconcileBody r e c ces = (c2, ces2, res, err)"
  shows "\<exists>qs. requests c2 = requests c @ ListNamespaces ls # qs
     \<and> (\<forall>q\<in>set qs. \<exists>n.
          (n \<in> (\<lambda>n. Name (ns_ObjectMeta n)) ` set nsList
           \<and> (q \<in> set (snd (snd (syncEntry r e ces (effectiveName ces) n
                                   (secrets c (n, effectiveName ces)))))
              \<or> q \<in> set (snd (snd (syncEntry r e ces (effectiveName ces) n
                     (fst (syncEntry r e ces (effectiveName ces) n
                                   (secrets c (n, effectiveName ces)))))))))
        \<or> (n \<in> set (ProvisionedNamespaces (ces_Status ces))
           \<and> n \<notin> (\<lambda>n. Name (ns_ObjectMeta n)) ` set nsList
           \<and> (q \<in> set (snd (snd (removeEntry e (effectiveName ces) n
                                   (secrets c (n, effectiveName ces)))))
              \<or> q \<in> set (snd (snd (removeEntry e (effectiveName ces) n
                     (fst (removeEntry e (effectiveName ces) n
                                   (secrets c (n, effectiveName ces))))))))))"
proof -
  let ?esName = "effectiveName ces"
  let ?names = "map (\<lambda>n. Name (ns_ObjectMeta n)) nsList"
  let ?removed = "getRemovedNamespaces nsList (ProvisionedNamespaces (ces_Status ces))"
  let ?S = "syncEntry r e ces ?esName"
  let ?T = "removeEntry e ?esName"
  obtain c1 f0 p0 c2' f p where
    l1: "entryLoop ?T ?esName ?removed (record_request (ListNamespaces ls) c, [], []) = (c1, f0, p0)"
    and l2: "entryLoop ?S ?esName ?names (c1, f0, []) = (c2', f, p)"
    and rb': "reconcileBody r e c ces =
       (c2',
        ces\<lparr>ces_Status := \<lparr>FailedNamespaces = toNamespaceFailures f,
                        ProvisionedNamespaces = sort p,
                        Conditions = Some (NewClusterExternalSecretCondition f nsList)\<rparr>\<rparr>,
        \<lparr>RequeueAfter = effectiveInterval r ces\<rparr>, None)"
    using reconcileBody_loops [OF sel lst] by blast
  have c2: "c2' = c2" using rb rb' by simp
  have rem: "\<And>n. n \<in> set ?removed \<longleftrightarrow>
      n \<in> set (ProvisionedNamespaces (ces_Status ces)) \<and> n \<notin> set ?names"
    by (auto simp: getRemovedNamespaces_filter)
  have s1: "\<And>k. secrets c1 k = (if snd k = ?esName \<and> fst k \<in> set ?removed
                     then fst (?T (fst k) (secrets c k)) else secrets c k)"
    using entryLoop_secrets [OF removeEntry_stab1 l1] by simp
  have same: "\<And>n. n \<in> set ?names \<Longrightarrow> secrets c1 (n, ?esName) = secrets c (n, ?esName)"
    unfolding s1 rem by simp
  obtain qs1 where q1: "requests c1 = requests c @ ListNamespaces ls # qs1"
    and r1: "\<forall>q\<in>set qs1. \<exists>n\<in>set ?removed.
               q \<in> set (snd (snd (?T n (secrets c (n, ?esName)))))
             \<or> q \<in> set (snd (snd (?T n (fst (?T n (secrets c (n, ?esName)))))))"
    using entryLoop_requests [OF removeEntry_stab1 l1] by auto
  obtain qs2 where q2: "requests c2 = requests c1 @ qs2"
    and r2: "\<forall>q\<in>set qs2. \<exists>n\<in>set ?names.
               q \<in> set (snd (snd (?S n (secrets c1 (n, ?esName)))))
             \<or> q \<in> set (snd (snd (?S n (fst (?S n (secrets c1 (n, ?esName)))))))"
    using entryLoop_requests [OF syncEntry_stab1 l2] c2 by auto
  have "requests c2 = requests c @ ListNamespaces ls # (qs1 @ qs2)"
    using q1 q2 by simp
  moreover have "\<forall>q\<in>set (qs1 @ qs2). \<exists>n.
          (n \<in> (\<lambda>n. Name (ns_ObjectMeta n)) ` set nsList
           \<and> (q \<in> set (snd (snd (?S n (secrets c (n, ?esName)))))
              \<or> q \<in> set (snd (snd (?S n (fst (?S n (secrets c (n, ?esName))))))))) 
        \<or> (n \<in> set (ProvisionedNamespaces (ces_Status ces))
           \<and> n \<notin> (\<lambda>n. Name (ns_ObjectMeta n)) ` set nsList
           \<and> (q \<in> set (snd (snd (?T n (secrets c (n, ?esName)))))
              \<or> q \<in> set (snd (snd (?T n (fst (?T n (secrets c (n, ?esName)))))))))"
  proof
    fix q assume "q \<in> set (qs1 @ qs2)"
    then consider "q \<in> set qs1" | "q \<in> set qs2" by auto
    then show "\<exists>n.
          (n \<in> (\<lambda>n. Name (ns_ObjectMeta n)) ` set nsList
           \<and> (q \<in> set (snd (snd (?S n (secrets c (n, ?esName)))))
              \<or> q \<in> set (snd (snd (?S n (fst (?S n (secrets c (n, ?esName))))))))) 
        \<or> (n \<in> set (ProvisionedNamespaces (ces_Status ces))
           \<and> n \<notin> (\<lambda>n. Name (ns_ObjectMeta n)) ` set nsList
           \<and> (q \<in> set (snd (snd (?T n (secrets c (n, ?esName)))))
              \<or> q \<in> set (snd (snd (?T n (fst (?T n (secrets c (n, ?esName)))))))))"
    proof cases
      case 1
      then obtain n where "n \<in> set ?removed"
        and "q \<in> set (snd (snd (?T n (secrets c (n, ?esName)))))
             \<or> q \<in> set (snd (snd (?T n (fst (?T n (secrets c (n, ?esName)))))))"
        using r1 by blast
      then show ?thesis using rem by auto
    next
      case 2
      then obtain n where n: "n \<in> set ?names"
        and "q \<in> set (snd (snd (?S n (secrets c1 (n, ?esName)))))
             \<or> q \<in> set (snd (snd (?S n (fst (?S n (secrets c1 (n, ?esName)))))))"
        using r2 by blast
      then have "q \<in> set (snd (snd (?S n (secrets c (n, ?esName)))))
             \<or> q \<in> set (snd (snd (?S n (fst (?S n (secrets c (n, ?esName)))))))"
        using same [OF n] by simp
      then show ?thesis using n by auto
    qed
  qed
  ultimately show ?thesis by blast
qed


text \<open>
  C1. The code does not keep the claim. The namespace \<open>b\<close> was provisioned before and
  no longer matches; it holds a child of the effective name whose controller is a
  Deployment, not the reconciling parent. The removal pass only looks whether there
  is any owner reference, so the cycle deletes the child and records no failure. In the
  matched namespace \<open>a\<close> the same child is refused by \<^verbatim>\<open>SetControllerReference\<close>: it
  stays as it is, with the failure "could not set the controller owner reference".
\<close>

theorem removal_deletes_foreign_child:
  "storedParent cluster_foreign ''ces'' = Some parent0
   \<and> secrets cluster_foreign (''b'', ''ces'') = Some foreign_child
   \<and> GetControllerOf (es_ObjectMeta foreign_child) = Some deployment_ref
   \<and> or_Kind deployment_ref \<noteq> ''ClusterExternalSecret''
   \<and> or_Name deployment_ref \<noteq> Name (ces_ObjectMeta parent0)
   \<and> secrets (fst (Reconcile reconciler0 env0 cluster_foreign ''ces'')) (''b'', ''ces'') = None
   \<and> DeleteExternalSecret ''b'' ''ces''
       \<in> set (requests (fst (Reconcile reconciler0 env0 cluster_foreign ''ces'')))
   \<and> patchedStatus (fst (Reconcile reconciler0 env0 cluster_foreign ''ces''))
       = Some \<lparr>FailedNamespaces = [], ProvisionedNamespaces = [''a''],
               Conditions = Some \<lparr>cond_Succeeded = True, cond_FailedCount = 0,
                                  cond_MatchedCount = 1\<rparr>\<rparr>
   \<and> secrets cluster_foreign_matched (''a'', ''ces'') = Some foreign_child_a
   \<and> GetControllerOf (es_ObjectMeta foreign_child_a) = Some deployment_ref
   \<and> secrets (fst (Reconcile reconciler0 env0 cluster_foreign_matched ''ces'')) (''a'', ''ces'')
       = Some foreign_child_a
   \<and> patchedStatus (fst (Reconcile reconciler0 env0 cluster_foreign_matched ''ces''))
       = Some \<lparr>FailedNamespaces =
                 [\<lparr>nf_Namespace = ''a'',
                   nf_Reason = ''could not set the controller owner reference''\<rparr>],
               ProvisionedNamespaces = [],
               Conditions = Some \<lparr>cond_Succeeded = False, cond_FailedCount = 1,
                                  cond_MatchedCount = 1\<rparr>\<rparr>"
  by (simp add: model_defs input_defs foreign_child_a_def cluster_foreign_matched_def
      Let_def patchedStatus_def statusPatches_def)

text \<open>
  A child of a matched namespace whose only owner reference is not a controller
  reference passes both checks: its spec is overwritten with the template, its owner
  references stay, and the namespace counts as provisioned.
\<close>

lemma nonController_owner_overwritten:
  "secrets cluster_helper_matched (''a'', ''ces'') = Some helper_child_a
   \<and> GetControllerOf (es_ObjectMeta helper_child_a) = None
   \<and> secrets (fst (Reconcile reconciler0 env0 cluster_helper_matched ''ces'')) (''a'', ''ces'')
       = Some (helper_child_a\<lparr>es_Spec := ''template''\<rparr>)
   \<and> patchedStatus (fst (Reconcile reconciler0 env0 cluster_helper_matched ''ces''))
       = Some \<lparr>FailedNamespaces = [], ProvisionedNamespaces = [''a''],
               Conditions = Some \<lparr>cond_Succeeded = True, cond_FailedCount = 0,
                                  cond_MatchedCount = 1\<rparr>\<rparr>"
  by (simp add: model_defs input_defs helper_child_a_def cluster_helper_matched_def
      Let_def patchedStatus_def statusPatches_def)

text \<open>
  What the code does keep, on every cluster and with any fault: a child that exists
  under the effective name with no owner reference, in a namespace that is matched or
  was provisioned before, and a child of a matched namespace that
  \<^verbatim>\<open>SetControllerReference\<close> refuses for the parent, is left as it is by a cycle. The
  entry is unchanged, no create, update or delete request is about it, and the status
  has a failure for its namespace, with the reason "external secret already exists in
  namespace" when there is no owner reference and the metadata get succeeds.
\<close>

lemma unowned_child_untouched:
  assumes "getParentFault e req = None"
    and "storedParent c req = Some ces"
    and "LabelSelectorAsSelector e (NamespaceSelector (ces_Spec ces)) = Inr ls"
    and "ListResult e ls = Inr nsList"
    and "Reconcile r e c req = (c', res, err)"
    and "secrets c (namespace, effectiveName ces) = Some es"
    and "(OwnerReferences (es_ObjectMeta es) = []
          \<and> (namespace \<in> (\<lambda>n. Name (ns_ObjectMeta n)) ` set nsList
             \<or> namespace \<in> set (ProvisionedNamespaces (ces_Status ces))))
       \<or> (controlledByAnother r ces (es_ObjectMeta es)
          \<and> namespace \<in> (\<lambda>n. Name (ns_ObjectMeta n)) ` set nsList)"
  shows "secrets c' (namespace, effectiveName ces) = Some es
     \<and> (\<exists>qs. requests c' = requests c @ qs
           \<and> (\<forall>q\<in>set qs. isWrite q \<longrightarrow> target q \<noteq> Some (namespace, effectiveName ces)))
     \<and> (\<exists>st. patchedStatus c' = Some st
           \<and> \<lparr>nf_Namespace = namespace,
               nf_Reason =
                 (if getMetadataFault e (namespace, effectiveName ces) \<noteq> None
                  then errGetExistingES
                  else if OwnerReferences (es_ObjectMeta es) = []
                  then ''external secret already exists in namespace''
                  else errSetCtrlReference)\<rparr>
             \<in> set (FailedNamespaces st))"
proof -
  let ?c0 = "record_request (GetClusterExternalSecret req) c"
  let ?esName = "effectiveName ces"
  let ?nm = "\<lambda>n. Name (ns_ObjectMeta n)"
  let ?reason = "if getMetadataFault e (namespace, ?esName) \<noteq> None then errGetExistingES
                 else if OwnerReferences (es_ObjectMeta es) = [] then errSecretAlreadyExists
                 else errSetCtrlReference"
  obtain c2 ces2 where
    rb: "reconcileBody r e ?c0 ces = (c2, ces2, res, err)"
    and c': "c' = deferPatch e c2 ces2 ces"
    using Reconcile_cycle [OF assms(1,2,5)] by blast
  have x: "secrets ?c0 (namespace, ?esName) = Some es" using assms(6) by simp
  have keepS: "OwnerReferences (es_ObjectMeta es) = [] \<or> controlledByAnother r ces (es_ObjectMeta es)"
    using assms(7) by blast
  have S: "syncEntry r e ces ?esName namespace (Some es)
             = (Some es, Some ?reason, [GetMetadata namespace ?esName])"
    using syncEntry_keeps [OF keepS] by simp
  have T: "namespace \<notin> ?nm ` set nsList \<Longrightarrow>
           removeEntry e ?esName namespace (Some es)
             = (Some es, Some ?reason, [GetMetadata namespace ?esName])"
    using assms(7) removeEntry_keeps [of es e ?esName namespace] by auto
  have listed: "namespace \<in> ?nm ` set nsList
                \<or> namespace \<in> set (ProvisionedNamespaces (ces_Status ces))"
    using assms(7) by blast
  have kept: "secrets c' (namespace, ?esName) = Some es"
    unfolding c' deferPatch_parts
      reconcileBody_result(2) [OF assms(3,4) rb, of "(namespace, ?esName)"]
    using x S T by auto
  obtain f where mf: "\<forall>n. map_of f n =
           (if n \<in> ?nm ` set nsList
            then fst (snd (syncEntry r e ces ?esName n (secrets ?c0 (n, ?esName))))
            else if n \<in> set (ProvisionedNamespaces (ces_Status ces))
            then fst (snd (removeEntry e ?esName n (secrets ?c0 (n, ?esName))))
            else None)"
    and ces2: "FailedNamespaces (ces_Status ces2) = toNamespaceFailures f"
    using reconcileBody_result(1) [OF assms(3,4) rb] by auto
  have "map_of f namespace = Some ?reason"
    using mf x S T listed by auto
  then have "(namespace, ?reason) \<in> set f" by (rule map_of_SomeD)
  then have "\<lparr>nf_Namespace = namespace, nf_Reason = ?reason\<rparr> \<in> set (toNamespaceFailures f)"
    by (force simp: toNamespaceFailures_def)
  then have failed: "\<exists>st. patchedStatus c' = Some st
           \<and> \<lparr>nf_Namespace = namespace, nf_Reason = ?reason\<rparr> \<in> set (FailedNamespaces st)"
    by (simp add: c' patchedStatus_deferPatch ces2)
  obtain qs where qs: "requests c2 = requests ?c0 @ ListNamespaces ls # qs"
    and origin: "\<forall>q\<in>set qs. \<exists>n.
          (n \<in> ?nm ` set nsList
           \<and> (q \<in> set (snd (snd (syncEntry r e ces ?esName n (secrets ?c0 (n, ?esName)))))
              \<or> q \<in> set (snd (snd (syncEntry r e ces ?esName n
                     (fst (syncEntry r e ces ?esName n (secrets ?c0 (n, ?esName)))))))))
        \<or> (n \<in> set (ProvisionedNamespaces (ces_Status ces))
           \<and> n \<notin> ?nm ` set nsList
           \<and> (q \<in> set (snd (snd (removeEntry e ?esName n (secrets ?c0 (n, ?esName)))))
              \<or> q \<in> set (snd (snd (removeEntry e ?esName n
                     (fst (removeEntry e ?esName n (secrets ?c0 (n, ?esName)))))))))"
    using reconcileBody_requests [OF assms(3,4) rb] by blast
  have nowrite: "\<forall>q\<in>set qs. isWrite q \<longrightarrow> target q \<noteq> Some (namespace, ?esName)"
  proof (intro ballI impI notI)
    fix q assume q: "q \<in> set qs" and w: "isWrite q" and t: "target q = Some (namespace, ?esName)"
    obtain n where n: "(n \<in> ?nm ` set nsList
           \<and> (q \<in> set (snd (snd (syncEntry r e ces ?esName n (secrets ?c0 (n, ?esName)))))
              \<or> q \<in> set (snd (snd (syncEntry r e ces ?esName n
                     (fst (syncEntry r e ces ?esName n (secrets ?c0 (n, ?esName)))))))))
        \<or> (n \<in> set (ProvisionedNamespaces (ces_Status ces))
           \<and> n \<notin> ?nm ` set nsList
           \<and> (q \<in> set (snd (snd (removeEntry e ?esName n (secrets ?c0 (n, ?esName)))))
              \<or> q \<in> set (snd (snd (removeEntry e ?esName n
                     (fst (removeEntry e ?esName n (secrets ?c0 (n, ?esName)))))))))"
      using origin q by blast
    have "target q = Some (n, ?esName)"
      using n syncEntry_targets removeEntry_targets by blast
    then have nn: "n = namespace" using t by simp
    have "q = GetMetadata namespace ?esName"
      using n x S T unfolding nn by auto
    then show False using w by simp
  qed
  have "requests c' = requests c @
          (GetClusterExternalSecret req # ListNamespaces ls # qs @ [PatchStatus ces ces2])"
    by (simp add: c' deferPatch_parts qs)
  moreover have "\<forall>q\<in>set (GetClusterExternalSecret req # ListNamespaces ls # qs
                            @ [PatchStatus ces ces2]).
      isWrite q \<longrightarrow> target q \<noteq> Some (namespace, ?esName)"
    using nowrite by auto
  ultimately have reqs: "\<exists>qs. requests c' = requests c @ qs
           \<and> (\<forall>q\<in>set qs. isWrite q \<longrightarrow> target q \<noteq> Some (namespace, ?esName))"
    by blast
  show ?thesis
    using kept reqs failed [unfolded errSecretAlreadyExists_def] by blast
qed


lemma unowned_child_untouched_instance:
  "secrets cluster_unowned (''b'', ''ces'') = Some unowned_child
   \<and> OwnerReferences (es_ObjectMeta unowned_child) = []
   \<and> secrets (fst (Reconcile reconciler0 env0 cluster_unowned ''ces'')) (''b'', ''ces'')
       = Some unowned_child
   \<and> \<lparr>nf_Namespace = ''b'', nf_Reason = ''external secret already exists in namespace''\<rparr>
       \<in> set (FailedNamespaces (the (patchedStatus
             (fst (Reconcile reconciler0 env0 cluster_unowned ''ces'')))))"
proof -
  have h1: "getParentFault env0 ''ces'' = None"
    by (simp add: env0_def)
  have h2: "storedParent cluster_unowned ''ces'' = Some parent0"
    by (simp add: storedParent_def cluster_unowned_def parent0_def emptyMeta_def)
  have h3: "LabelSelectorAsSelector env0 (NamespaceSelector (ces_Spec parent0)) = Inr ''env=prod''"
    by (simp add: env0_def parent0_def)
  have h4: "ListResult env0 ''env=prod'' = Inr [namespace_a]"
    by (simp add: env0_def)
  have h5: "Reconcile reconciler0 env0 cluster_unowned ''ces''
      = (fst (Reconcile reconciler0 env0 cluster_unowned ''ces''),
         fst (snd (Reconcile reconciler0 env0 cluster_unowned ''ces'')),
         snd (snd (Reconcile reconciler0 env0 cluster_unowned ''ces'')))"
    by simp
  have nm: "effectiveName parent0 = ''ces''"
    by (simp add: effectiveName_def parent0_def emptyMeta_def)
  have h6: "secrets cluster_unowned (''b'', effectiveName parent0) = Some unowned_child"
    by (simp add: nm cluster_unowned_def)
  have refs: "OwnerReferences (es_ObjectMeta unowned_child) = []"
    by (simp add: unowned_child_def emptyMeta_def)
  have h7: "(OwnerReferences (es_ObjectMeta unowned_child) = []
          \<and> (''b'' \<in> (\<lambda>n. Name (ns_ObjectMeta n)) ` set [namespace_a]
             \<or> ''b'' \<in> set (ProvisionedNamespaces (ces_Status parent0))))
       \<or> (controlledByAnother reconciler0 parent0 (es_ObjectMeta unowned_child)
          \<and> ''b'' \<in> (\<lambda>n. Name (ns_ObjectMeta n)) ` set [namespace_a])"
    by (simp add: refs parent0_def)
  have nofault: "getMetadataFault env0 (''b'', ''ces'') = None"
    by (simp add: env0_def)
  show ?thesis
    using unowned_child_untouched [OF h1 h2 h3 h4 h5 h6 h7] refs nofault h6
    by (auto simp: nm)
qed

subsection \<open>The removal pass\<close>

text \<open>
  C6, as the claim states it, fails on the reason: when the delete fails the reason
  recorded is not \<open>could not delete\<close>. (The pass does go on: the child in \<open>c\<close> is deleted
  after the delete in \<open>b\<close> failed.)
\<close>

theorem removal_reason_counterexample:
  "snd (removeOldNamespaces env_deleteError cluster_owned [namespace_a] ''ces'' [''b'', ''c''])
     = [(''b'', ''external secret in non matching namespace could not be deleted'')]
   \<and> map_of (snd (removeOldNamespaces env_deleteError cluster_owned [namespace_a] ''ces''
                    [''b'', ''c''])) ''b'' \<noteq> Some ''could not delete''"
  by (simp add: model_defs input_defs env_deleteError_def cluster_owned_def owned_child_def
      owned_ref_def Let_def)

text \<open>
  C6, amended. In the removal pass, for every removed namespace on its own, whatever
  happens in the others: when the child is not found nothing is recorded; when the
  child is found with an owner reference and the delete fails, the reason "external
  secret in non matching namespace could not be deleted" is recorded for that namespace
  and the child stays; when the delete succeeds the child is gone and nothing is
  recorded.
\<close>

theorem removal_isolated:
  assumes "removeOldNamespaces e c nsList esName prev = (c', failedNamespaces)"
    and "namespace \<in> set (getRemovedNamespaces nsList prev)"
    and "getMetadataFault e (namespace, esName) = None"
  shows "(secrets c (namespace, esName) = None \<longrightarrow>
            map_of failedNamespaces namespace = None \<and> secrets c' (namespace, esName) = None)
     \<and> (\<forall>es. secrets c (namespace, esName) = Some es
               \<and> OwnerReferences (es_ObjectMeta es) \<noteq> [] \<longrightarrow>
            (deleteFault e (namespace, esName) \<noteq> None \<longrightarrow>
               map_of failedNamespaces namespace
                 = Some ''external secret in non matching namespace could not be deleted''
               \<and> secrets c' (namespace, esName) = Some es)
          \<and> (deleteFault e (namespace, esName) = None \<longrightarrow>
               map_of failedNamespaces namespace = None
               \<and> secrets c' (namespace, esName) = None))"
proof -
  let ?removed = "getRemovedNamespaces nsList prev"
  let ?T = "removeEntry e esName"
  obtain c1 f p where
    l: "entryLoop ?T esName ?removed (c, [], []) = (c1, f, p)"
    using prod_cases3 by blast
  have "removeOldNamespaces e c nsList esName prev = (c1, f)"
    by (simp add: removeOldNamespaces_def removeLoop_entryLoop [where prov = "[]"] l)
  then have c': "c' = c1" and f: "failedNamespaces = f" using assms(1) by simp_all
  have sec: "secrets c' (namespace, esName) = fst (?T namespace (secrets c (namespace, esName)))"
    using entryLoop_secrets [OF removeEntry_stab1 l, of "(namespace, esName)"] assms(2)
    by (simp add: c')
  have fl: "map_of failedNamespaces namespace
              = fst (snd (?T namespace (secrets c (namespace, esName))))"
    using entryLoop_failed [OF removeEntry_stab2 l, of namespace] assms(2)
    by (simp add: f split: option.splits)
  show ?thesis
    unfolding sec fl
    by (auto simp: removeEntry_def Let_def assms(3) errFailedToDelete_def)
qed

theorem removal_isolated_witness:
  "getRemovedNamespaces [namespace_a] [''b'', ''c''] = [''b'', ''c'']
   \<and> map_of (snd (removeOldNamespaces env_deleteError cluster_owned [namespace_a] ''ces''
                    [''b'', ''c''])) ''b''
       = Some ''external secret in non matching namespace could not be deleted''
   \<and> secrets (fst (removeOldNamespaces env_deleteError cluster_owned [namespace_a] ''ces''
                    [''b'', ''c''])) (''b'', ''ces'') = Some (owned_child ''b'')
   \<and> map_of (snd (removeOldNamespaces env_deleteError cluster_owned [namespace_a] ''ces''
                    [''b'', ''c''])) ''c'' = None
   \<and> secrets (fst (removeOldNamespaces env_deleteError cluster_owned [namespace_a] ''ces''
                    [''b'', ''c''])) (''c'', ''ces'') = None"
proof -
  let ?R = "removeOldNamespaces env_deleteError cluster_owned [namespace_a] ''ces'' [''b'', ''c'']"
  have h1: "?R = (fst ?R, snd ?R)" by simp
  have rm: "getRemovedNamespaces [namespace_a] [''b'', ''c''] = [''b'', ''c'']"
    by (simp add: getRemovedNamespaces_def namespace_a_def emptyMeta_def)
  have b: "''b'' \<in> set (getRemovedNamespaces [namespace_a] [''b'', ''c''])"
    and c: "''c'' \<in> set (getRemovedNamespaces [namespace_a] [''b'', ''c''])"
    by (simp_all add: rm)
  have gb: "getMetadataFault env_deleteError (''b'', ''ces'') = None"
    and gc: "getMetadataFault env_deleteError (''c'', ''ces'') = None"
    by (simp_all add: env_deleteError_def env0_def)
  have sb: "secrets cluster_owned (''b'', ''ces'') = Some (owned_child ''b'')"
    and sc: "secrets cluster_owned (''c'', ''ces'') = Some (owned_child ''c'')"
    by (simp_all add: cluster_owned_def)
  have refs: "\<And>n. OwnerReferences (es_ObjectMeta (owned_child n)) \<noteq> []"
    by (simp add: owned_child_def emptyMeta_def)
  have db: "deleteFault env_deleteError (''b'', ''ces'') \<noteq> None"
    and dc: "deleteFault env_deleteError (''c'', ''ces'') = None"
    by (simp_all add: env_deleteError_def env0_def)
  show ?thesis
    using removal_isolated [OF h1 b gb] removal_isolated [OF h1 c gc] sb sc refs db dc rm
    by simp
qed

subsection \<open>Two cycles in a row\<close>

lemma syncEntry_status:
  "syncEntry r e (ces\<lparr>ces_Status := st\<rparr>) esName = syncEntry r e ces esName"
  by (intro ext)
    (simp add: syncEntry_def SetControllerReference_def Let_def
      cong: option.case_cong sum.case_cong if_cong)

lemma effectiveName_status [simp]:
  "effectiveName (ces\<lparr>ces_Status := st\<rparr>) = effectiveName ces"
  by (simp add: effectiveName_def Let_def)

lemma effectiveInterval_status [simp]:
  "effectiveInterval r (ces\<lparr>ces_Status := st\<rparr>) = effectiveInterval r ces"
  by (simp add: effectiveInterval_def)

lemma mergeStatus_same [simp]: "mergeStatus s m s = m"
  by (simp add: mergeStatus_def)

lemma storedParent_deferPatch:
  assumes "storedParent c req = Some ces" and "parents b = parents c"
  shows "storedParent (deferPatch e b (ces\<lparr>ces_Status := st\<rparr>) ces) req
           = Some (ces\<lparr>ces_Status := (if patchFault e req = None then st else ces_Status ces)\<rparr>)"
proof -
  obtain p where p: "parents c req = Some p"
    and ces: "ces = p\<lparr>ces_ObjectMeta := (ces_ObjectMeta p)\<lparr>Name := req\<rparr>\<rparr>"
    using assms(1) by (auto simp: storedParent_def)
  have nm: "Name (ces_ObjectMeta ces) = req" by (simp add: ces)
  have st: "ces_Status ces = ces_Status p" by (simp add: ces)
  show ?thesis
    using p
    by (auto simp: deferPatch_def storedParent_def record_request_def Let_def nm assms(2) st ces
        split: option.splits)
qed

lemma toNamespaceFailures_filter:
  "filter (\<lambda>x. nf_Namespace x \<in> A) (toNamespaceFailures f)
     = toNamespaceFailures (filter (\<lambda>(n, m). n \<in> A) f)"
proof -
  have "filter ((\<lambda>x. nf_Namespace x \<in> A) \<circ>
          (\<lambda>(namespace, message). \<lparr>nf_Namespace = namespace, nf_Reason = message\<rparr>)) f
        = filter (\<lambda>(n, m). n \<in> A) f"
    by (rule filter_cong) auto
  then show ?thesis
    by (simp add: toNamespaceFailures_def filter_sort filter_map)
qed

lemma map_of_filter_keys:
  "map_of (filter (\<lambda>(n, m). n \<in> A) f) k = (if k \<in> A then map_of f k else None)"
  by (induction f) auto


text \<open>
  C2, as the claim states it, fails on the status: a failure of the removal pass is
  reported by the first cycle only, because the second cycle computes the removed
  namespaces from the provisioned namespaces the first one has written. Here the
  namespace \<open>b\<close>, provisioned before and no longer matched, holds a child without owner
  reference.
\<close>

theorem idempotence_counterexample:
  "patchedStatus (fst (Reconcile reconciler0 env0 cluster_unowned ''ces''))
     = Some \<lparr>FailedNamespaces =
               [\<lparr>nf_Namespace = ''b'',
                 nf_Reason = ''external secret already exists in namespace''\<rparr>],
             ProvisionedNamespaces = [''a''],
             Conditions = Some \<lparr>cond_Succeeded = False, cond_FailedCount = 1,
                                cond_MatchedCount = 1\<rparr>\<rparr>
   \<and> patchedStatus (fst (Reconcile reconciler0 env0
         (fst (Reconcile reconciler0 env0 cluster_unowned ''ces'')) ''ces''))
     = Some \<lparr>FailedNamespaces = [],
             ProvisionedNamespaces = [''a''],
             Conditions = Some \<lparr>cond_Succeeded = True, cond_FailedCount = 0,
                                cond_MatchedCount = 1\<rparr>\<rparr>"
  by (simp add: model_defs input_defs Let_def patchedStatus_def statusPatches_def)

text \<open>
  C2, amended. Two cycles in a row on the same parent, with nothing changed in
  between: the second leaves every child as the first left it, returns the same result
  and error, and sends a status with the same provisioned namespaces and the same
  failures for the matched namespaces. The two statuses are identical as a whole
  exactly when the status patch of the first cycle failed or the first cycle recorded
  no failure for a namespace outside the matched ones (no failure of its removal
  pass).
\<close>

theorem cycle_idempotent:
  assumes "getParentFault e req = None"
    and "storedParent c req = Some ces"
    and "LabelSelectorAsSelector e (NamespaceSelector (ces_Spec ces)) = Inr ls"
    and "ListResult e ls = Inr nsList"
    and "Reconcile r e c req = (c1, res1, err1)"
    and "Reconcile r e c1 req = (c2, res2, err2)"
  shows "secrets c2 = secrets c1 \<and> res2 = res1 \<and> err2 = err1
     \<and> (\<exists>st1 st2. patchedStatus c1 = Some st1 \<and> patchedStatus c2 = Some st2
           \<and> ProvisionedNamespaces st2 = ProvisionedNamespaces st1
           \<and> filter (\<lambda>f. nf_Namespace f \<in> (\<lambda>n. Name (ns_ObjectMeta n)) ` set nsList)
                 (FailedNamespaces st2)
             = filter (\<lambda>f. nf_Namespace f \<in> (\<lambda>n. Name (ns_ObjectMeta n)) ` set nsList)
                 (FailedNamespaces st1)
           \<and> (st2 = st1)
               = (patchFault e req \<noteq> None
                  \<or> nf_Namespace ` set (FailedNamespaces st1)
                        \<subseteq> (\<lambda>n. Name (ns_ObjectMeta n)) ` set nsList))"
proof -
  let ?esName = "effectiveName ces"
  let ?nm = "\<lambda>n. Name (ns_ObjectMeta n)"
  let ?names = "?nm ` set nsList"
  let ?prev = "set (ProvisionedNamespaces (ces_Status ces))"
  let ?S = "syncEntry r e ces ?esName"
  let ?T = "removeEntry e ?esName"
  let ?c0 = "record_request (GetClusterExternalSecret req) c"
  let ?c0' = "record_request (GetClusterExternalSecret req) c1"
  let ?x = "\<lambda>n. secrets c (n, ?esName)"
  let ?ok = "\<lambda>n. fst (snd (?S n (?x n))) = None"
  \<comment> \<open>the first cycle\<close>
  obtain b1 m1 where
    rb1: "reconcileBody r e ?c0 ces = (b1, m1, res1, err1)"
    and c1: "c1 = deferPatch e b1 m1 ces"
    using Reconcile_cycle [OF assms(1,2,5)] by blast
  obtain f where df: "distinct (map fst f)"
    and mf: "\<forall>n. map_of f n =
           (if n \<in> ?names then fst (snd (?S n (?x n)))
            else if n \<in> ?prev then fst (snd (?T n (?x n)))
            else None)"
    and m1: "m1 = ces\<lparr>ces_Status :=
                \<lparr>FailedNamespaces = toNamespaceFailures f,
                 ProvisionedNamespaces = sort (filter ?ok (map ?nm nsList)),
                 Conditions = Some (NewClusterExternalSecretCondition f nsList)\<rparr>\<rparr>"
    using reconcileBody_result(1) [OF assms(3,4) rb1] by auto
  have s1: "\<And>k. secrets c1 k =
           (if snd k = ?esName \<and> fst k \<in> ?names then fst (?S (fst k) (secrets c k))
            else if snd k = ?esName \<and> fst k \<in> ?prev then fst (?T (fst k) (secrets c k))
            else secrets c k)"
    using reconcileBody_result(2) [OF assms(3,4) rb1] by (simp add: c1 deferPatch_parts)
  have r1: "res1 = \<lparr>RequeueAfter = effectiveInterval r ces\<rparr>" and e1: "err1 = None"
    using reconcileBody_result(3,4) [OF assms(3,4) rb1] by simp_all
  have par: "parents b1 = parents c"
    using reconcileBody_frame(1) [OF rb1] by simp
  \<comment> \<open>the parent the second cycle fetches\<close>
  let ?st1 = "ces_Status m1"
  define s where "s = (if patchFault e req = None then ?st1 else ces_Status ces)"
  let ?ces1 = "ces\<lparr>ces_Status := s\<rparr>"
  have m1': "m1 = ces\<lparr>ces_Status := ?st1\<rparr>" by (simp add: m1)
  have sp1: "storedParent c1 req = Some ?ces1"
    unfolding c1 s_def using storedParent_deferPatch [OF assms(2) par, of e ?st1] m1' by simp
  have sel1: "LabelSelectorAsSelector e (NamespaceSelector (ces_Spec ?ces1)) = Inr ls"
    using assms(3) by simp
  have prev2: "set (ProvisionedNamespaces s) \<subseteq> ?names \<union> ?prev"
    by (auto simp: m1 s_def)
  \<comment> \<open>the second cycle\<close>
  obtain b2 m2 where
    rb2: "reconcileBody r e ?c0' ?ces1 = (b2, m2, res2, err2)"
    and c2: "c2 = deferPatch e b2 m2 ?ces1"
    using Reconcile_cycle [OF assms(1) sp1 assms(6)] by blast
  let ?y = "\<lambda>n. secrets c1 (n, ?esName)"
  obtain g where dg: "distinct (map fst g)"
    and mg: "\<forall>n. map_of g n =
           (if n \<in> ?names then fst (snd (?S n (?y n)))
            else if n \<in> set (ProvisionedNamespaces s) then fst (snd (?T n (?y n)))
            else None)"
    and m2: "m2 = ces\<lparr>ces_Status :=
                \<lparr>FailedNamespaces = toNamespaceFailures g,
                 ProvisionedNamespaces =
                   sort (filter (\<lambda>n. fst (snd (?S n (?y n))) = None) (map ?nm nsList)),
                 Conditions = Some (NewClusterExternalSecretCondition g nsList)\<rparr>\<rparr>"
    using reconcileBody_result(1) [OF sel1 assms(4) rb2]
    by (auto simp: syncEntry_status)
  have s2: "\<And>k. secrets c2 k =
           (if snd k = ?esName \<and> fst k \<in> ?names then fst (?S (fst k) (secrets c1 k))
            else if snd k = ?esName \<and> fst k \<in> set (ProvisionedNamespaces s)
            then fst (?T (fst k) (secrets c1 k))
            else secrets c1 k)"
    using reconcileBody_result(2) [OF sel1 assms(4) rb2]
    by (simp add: c2 deferPatch_parts syncEntry_status)
  have r2: "res2 = \<lparr>RequeueAfter = effectiveInterval r ces\<rparr>" and e2: "err2 = None"
    using reconcileBody_result(3,4) [OF sel1 assms(4) rb2] by simp_all
  \<comment> \<open>what the first cycle left for the second\<close>
  have yS: "\<And>n. n \<in> ?names \<Longrightarrow> ?y n = fst (?S n (?x n))"
    by (simp add: s1)
  have yT: "\<And>n. n \<notin> ?names \<Longrightarrow> n \<in> ?prev \<Longrightarrow> ?y n = fst (?T n (?x n))"
    by (simp add: s1)
  have okS: "\<And>n. n \<in> ?names \<Longrightarrow> fst (snd (?S n (?y n))) = fst (snd (?S n (?x n)))"
    by (simp add: yS syncEntry_stab2)
  have okT: "\<And>n. n \<notin> ?names \<Longrightarrow> n \<in> ?prev \<Longrightarrow>
               fst (snd (?T n (?y n))) = fst (snd (?T n (?x n)))"
    by (simp add: yT removeEntry_stab2)
  have sec: "secrets c2 = secrets c1"
  proof (rule ext)
    fix k :: "string \<times> string"
    obtain n name where k: "k = (n, name)" by (cases k)
    show "secrets c2 k = secrets c1 k"
    proof (cases "name = ?esName \<and> n \<in> ?names")
      case True
      then show ?thesis
        using yS [of n] by (simp add: s2 k syncEntry_stab1)
    next
      case False
      note notMatched = False
      show ?thesis
      proof (cases "name = ?esName \<and> n \<in> set (ProvisionedNamespaces s)")
        case True
        then have "n \<in> ?prev" "n \<notin> ?names" using prev2 notMatched by auto
        then show ?thesis
          using yT [of n] True notMatched
          by (simp add: s2 k removeEntry_stab1)
      next
        case False
        then show ?thesis using notMatched by (auto simp: s2 k)
      qed
    qed
  qed
  have prov: "ProvisionedNamespaces (ces_Status m2) = ProvisionedNamespaces (ces_Status m1)"
  proof -
    have "filter (\<lambda>n. fst (snd (?S n (?y n))) = None) (map ?nm nsList)
        = filter ?ok (map ?nm nsList)"
      by (rule filter_cong [OF refl]) (simp add: okS)
    then show ?thesis by (simp add: m1 m2)
  qed
  have onNames: "\<And>n. n \<in> ?names \<Longrightarrow> map_of g n = map_of f n"
    using mf mg okS by simp
  have failed: "filter (\<lambda>f. nf_Namespace f \<in> ?names) (FailedNamespaces (ces_Status m2))
             = filter (\<lambda>f. nf_Namespace f \<in> ?names) (FailedNamespaces (ces_Status m1))"
  proof -
    let ?in = "\<lambda>(n, m). n \<in> ?names"
    have "distinct (map fst (filter ?in g))" "distinct (map fst (filter ?in f))"
      using dg df by (simp_all add: distinct_map_filter)
    moreover have "map_of (filter ?in g) = map_of (filter ?in f)"
      by (rule ext) (simp add: map_of_filter_keys onNames)
    ultimately have "toNamespaceFailures (filter ?in g) = toNamespaceFailures (filter ?in f)"
      by (rule toNamespaceFailures_unique(1))
    then show ?thesis
      by (simp add: m1 m2 toNamespaceFailures_filter)
  qed
  have domf: "nf_Namespace ` set (FailedNamespaces (ces_Status m1)) = dom (map_of f)"
    using toNamespaceFailures_names(2) [of f] by (simp add: m1 dom_map_of_conv_image_fst)
  have domg: "nf_Namespace ` set (FailedNamespaces (ces_Status m2)) = dom (map_of g)"
    using toNamespaceFailures_names(2) [of g] by (simp add: m2 dom_map_of_conv_image_fst)
  have whole: "(ces_Status m2 = ces_Status m1)
      = (patchFault e req \<noteq> None
         \<or> nf_Namespace ` set (FailedNamespaces (ces_Status m1)) \<subseteq> ?names)"
  proof
    assume eq: "ces_Status m2 = ces_Status m1"
    show "patchFault e req \<noteq> None
         \<or> nf_Namespace ` set (FailedNamespaces (ces_Status m1)) \<subseteq> ?names"
    proof (rule ccontr)
      assume "\<not> (patchFault e req \<noteq> None
         \<or> nf_Namespace ` set (FailedNamespaces (ces_Status m1)) \<subseteq> ?names)"
      then obtain n where patched: "patchFault e req = None"
        and n1: "n \<in> dom (map_of f)" and n2: "n \<notin> ?names"
        unfolding domf by auto
      have "set (ProvisionedNamespaces s) \<subseteq> ?names"
        using patched by (auto simp: s_def m1)
      then have "n \<notin> set (ProvisionedNamespaces s)" using n2 by auto
      then have "map_of g n = None" using mg n2 by simp
      then have "n \<notin> dom (map_of g)" by auto
      moreover have "dom (map_of g) = dom (map_of f)"
        using domf domg eq by simp
      ultimately show False using n1 by simp
    qed
  next
    assume cond: "patchFault e req \<noteq> None
         \<or> nf_Namespace ` set (FailedNamespaces (ces_Status m1)) \<subseteq> ?names"
    have "\<And>n. n \<notin> ?names \<Longrightarrow> map_of g n = map_of f n"
    proof -
      fix n assume n: "n \<notin> ?names"
      show "map_of g n = map_of f n"
      proof (cases "n \<in> set (ProvisionedNamespaces s)")
        case True
        then have p: "n \<in> ?prev" using prev2 n by auto
        then show ?thesis
          using mf mg n True okT [OF n p] by simp
      next
        case False
        note notPrev2 = False
        from cond show ?thesis
        proof
          assume "patchFault e req \<noteq> None"
          then have "ProvisionedNamespaces s = ProvisionedNamespaces (ces_Status ces)"
            by (auto simp: s_def)
          then show ?thesis using mf mg n notPrev2 by simp
        next
          assume "nf_Namespace ` set (FailedNamespaces (ces_Status m1)) \<subseteq> ?names"
          then have "map_of f n = None" using n unfolding domf by auto
          then show ?thesis using mg n notPrev2 by simp
        qed
      qed
    qed
    then have "map_of g = map_of f"
      using onNames by (intro ext) blast
    then have "toNamespaceFailures g = toNamespaceFailures f" "length g = length f"
      using toNamespaceFailures_unique [OF dg df] by simp_all
    then show "ces_Status m2 = ces_Status m1"
      using prov by (simp add: m1 m2 NewClusterExternalSecretCondition_def)
  qed
  have "patchedStatus c1 = Some (ces_Status m1)" "patchedStatus c2 = Some (ces_Status m2)"
    by (simp_all add: c1 c2 patchedStatus_deferPatch)
  then show ?thesis
    using sec r1 r2 e1 e2 prov failed whole by blast
qed


theorem cycle_idempotent_witness:
  "\<not> set (ProvisionedNamespaces (ces_Status parent0))
       \<subseteq> (\<lambda>n. Name (ns_ObjectMeta n)) ` set [namespace_a]
   \<and> patchFault env0 ''ces'' = None
   \<and> secrets (fst (Reconcile reconciler0 env0 cluster_owned ''ces'')) (''b'', ''ces'') = None
   \<and> patchedStatus (fst (Reconcile reconciler0 env0 cluster_owned ''ces''))
       = Some \<lparr>FailedNamespaces = [], ProvisionedNamespaces = [''a''],
               Conditions = Some \<lparr>cond_Succeeded = True, cond_FailedCount = 0,
                                  cond_MatchedCount = 1\<rparr>\<rparr>
   \<and> patchedStatus (fst (Reconcile reconciler0 env0
         (fst (Reconcile reconciler0 env0 cluster_owned ''ces'')) ''ces''))
       = patchedStatus (fst (Reconcile reconciler0 env0 cluster_owned ''ces''))
   \<and> secrets (fst (Reconcile reconciler0 env0
         (fst (Reconcile reconciler0 env0 cluster_owned ''ces'')) ''ces''))
       = secrets (fst (Reconcile reconciler0 env0 cluster_owned ''ces''))"
proof -
  let ?R1 = "Reconcile reconciler0 env0 cluster_owned ''ces''"
  let ?R2 = "Reconcile reconciler0 env0 (fst ?R1) ''ces''"
  let ?st = "\<lparr>FailedNamespaces = [], ProvisionedNamespaces = [''a''],
              Conditions = Some \<lparr>cond_Succeeded = True, cond_FailedCount = 0,
                                 cond_MatchedCount = 1\<rparr>\<rparr>"
  have h1: "getParentFault env0 ''ces'' = None"
    by (simp add: env0_def)
  have h2: "storedParent cluster_owned ''ces'' = Some parent0"
    by (simp add: storedParent_def cluster_owned_def parent0_def emptyMeta_def)
  have h3: "LabelSelectorAsSelector env0 (NamespaceSelector (ces_Spec parent0)) = Inr ''env=prod''"
    by (simp add: env0_def parent0_def)
  have h4: "ListResult env0 ''env=prod'' = Inr [namespace_a]"
    by (simp add: env0_def)
  have h5: "?R1 = (fst ?R1, fst (snd ?R1), snd (snd ?R1))" by simp
  have h6: "?R2 = (fst ?R2, fst (snd ?R2), snd (snd ?R2))" by simp
  have left: "\<not> set (ProvisionedNamespaces (ces_Status parent0))
       \<subseteq> (\<lambda>n. Name (ns_ObjectMeta n)) ` set [namespace_a]"
    by (simp add: parent0_def namespace_a_def emptyMeta_def)
  have pf: "patchFault env0 ''ces'' = None"
    by (simp add: env0_def)
  have st1: "patchedStatus (fst ?R1) = Some ?st"
    and gone: "secrets (fst ?R1) (''b'', ''ces'') = None"
    by (simp_all add: model_defs input_defs cluster_owned_def owned_child_def owned_ref_def
        Let_def patchedStatus_def statusPatches_def)
  obtain st2 where sec: "secrets (fst ?R2) = secrets (fst ?R1)"
    and st2: "patchedStatus (fst ?R2) = Some st2"
    and eq: "(st2 = ?st)
               = (patchFault env0 ''ces'' \<noteq> None
                  \<or> nf_Namespace ` set (FailedNamespaces ?st)
                        \<subseteq> (\<lambda>n. Name (ns_ObjectMeta n)) ` set [namespace_a])"
    using cycle_idempotent [OF h1 h2 h3 h4 h5 h6] st1 by auto
  have "st2 = ?st" using eq by simp
  then show ?thesis
    using left pf gone st1 st2 sec by simp
qed

end
